theory Spec2Isabelle
  imports Complex_Main "HOL-Library.Sublist"
begin

section \<open>Python strings\<close>

text \<open>
  A Python \<open>str\<close> is modelled as a \<open>string\<close>; every \<open>char\<close> stands for one code
  point below 256 (Latin-1), so \<open>length\<close> is Python's \<open>len\<close> on such texts.
\<close>

definition py_isspace :: "char \<Rightarrow> bool" where
  \<comment> \<open>\<open>str.isspace\<close> on one code point below 256: TAB..CR, FS..US, SPACE, NEL, NBSP\<close>
  "py_isspace c =
     (let n = (of_char c :: nat)
      in (9 \<le> n \<and> n \<le> 13) \<or> (28 \<le> n \<and> n \<le> 32) \<or> n = 133 \<or> n = 160)"

definition strip :: "string \<Rightarrow> string" where
  \<comment> \<open>\<open>s.strip()\<close>\<close>
  "strip s = rev (dropWhile py_isspace (rev (dropWhile py_isspace s)))"

definition py_lower :: "char \<Rightarrow> char" where
  \<comment> \<open>\<open>str.lower\<close> on one code point below 256\<close>
  "py_lower c =
     (let n = (of_char c :: nat)
      in if (65 \<le> n \<and> n \<le> 90) \<or> (192 \<le> n \<and> n \<le> 214) \<or> (216 \<le> n \<and> n \<le> 222)
         then char_of (n + 32) else c)"

definition lower :: "string \<Rightarrow> string" where
  "lower s = map py_lower s"

definition startswith :: "string \<Rightarrow> string \<Rightarrow> bool" where
  \<comment> \<open>\<open>s.startswith(p)\<close>\<close>
  "startswith s p = (take (length p) s = p)"

fun split_chr :: "char \<Rightarrow> string \<Rightarrow> string list" where
  \<comment> \<open>\<open>s.split(c)\<close> for a one-character separator\<close>
  "split_chr c [] = [[]]"
| "split_chr c (x # xs) =
     (if x = c then [] # split_chr c xs
      else (case split_chr c xs of [] \<Rightarrow> [[x]] | w # ws \<Rightarrow> (x # w) # ws))"

definition split_once :: "char \<Rightarrow> string \<Rightarrow> string list" where
  \<comment> \<open>\<open>s.split(c, 1)\<close>\<close>
  "split_once c s =
     (if c \<in> set s then [takeWhile (\<lambda>x. x \<noteq> c) s, tl (dropWhile (\<lambda>x. x \<noteq> c) s)]
      else [s])"

definition index1 :: "'a list \<Rightarrow> string + 'a" where
  \<comment> \<open>\<open>xs[1]\<close>; \<open>Inl\<close> is the message of the IndexError\<close>
  "index1 xs = (case xs of _ # y # _ \<Rightarrow> Inr y | _ \<Rightarrow> Inl ''list index out of range'')"

fun join :: "string \<Rightarrow> string list \<Rightarrow> string" where
  \<comment> \<open>\<open>sep.join(xs)\<close>\<close>
  "join sep [] = []"
| "join sep [x] = x"
| "join sep (x # y # ys) = x @ sep @ join sep (y # ys)"

definition nl :: string where
  "nl = [CHR 0x0A]"

definition dq :: string where
  "dq = [CHR 0x22]"

definition digit_chr :: "nat \<Rightarrow> char" where
  "digit_chr d = char_of (48 + d)"

fun str_nat :: "nat \<Rightarrow> string" where
  \<comment> \<open>\<open>str(n)\<close> for a non-negative int\<close>
  "str_nat n = (if n < 10 then [digit_chr n] else str_nat (n div 10) @ [digit_chr (n mod 10)])"

declare str_nat.simps [simp del]

section \<open>Python floats and JSON-like values\<close>

text \<open>
  A float is a finite real, an infinity or NaN. Only comparisons are taken on floats
  here, and these agree with the comparisons of the reals they denote; every comparison
  with NaN is false.
\<close>

datatype pyfloat = Fin real | PosInf | NegInf | NaN

fun fl_less :: "pyfloat \<Rightarrow> pyfloat \<Rightarrow> bool" where
  "fl_less NaN _ = False"
| "fl_less _ NaN = False"
| "fl_less (Fin a) (Fin b) = (a < b)"
| "fl_less (Fin a) PosInf = True"
| "fl_less (Fin a) NegInf = False"
| "fl_less PosInf _ = False"
| "fl_less NegInf NegInf = False"
| "fl_less NegInf _ = True"

definition py_min :: "pyfloat \<Rightarrow> pyfloat \<Rightarrow> pyfloat" where
  \<comment> \<open>\<open>min(a, b)\<close>: the second argument replaces the first only when it is smaller\<close>
  "py_min a b = (if fl_less b a then b else a)"

definition py_max :: "pyfloat \<Rightarrow> pyfloat \<Rightarrow> pyfloat" where
  \<comment> \<open>\<open>max(a, b)\<close>: the second argument replaces the first only when it is greater\<close>
  "py_max a b = (if fl_less a b then b else a)"

datatype pyval =
    PNone
  | PFloat pyfloat
  | PStr string
  | PList "pyval list"
  | PDict "(string \<times> pyval) list"

type_synonym pydict = "(string \<times> pyval) list"

definition dict_get :: "pydict \<Rightarrow> string \<Rightarrow> pyval option" where
  "dict_get d k = map_of d k"

definition dict_keys :: "pydict \<Rightarrow> string list" where
  "dict_keys d = map fst d"

section \<open>Configuration, collaborators and state\<close>

text \<open>One entry of the search provider's \<open>organic\<close> list; a field may be missing.\<close>

record organic_result =
  r_title :: "string option"
  r_link :: "string option"
  r_snippet :: "string option"

text \<open>
  What the POST to the search provider does: it raises (transport error, timeout,
  body that is not JSON), or it answers with a status code and a body whose
  \<open>organic\<close> list is given (the empty list when the body has no such key).
\<close>

datatype search_outcome = SearchRaised string | SearchReplied nat "organic_result list"

text \<open>
  What the chat completion of the secondary judge leads to in \<open>get_gpt_score\<close>:
  the call (or a step after it) raises an exception other than a parse error; the reply
  fails to decode (JSONDecodeError, KeyError, ValueError); or the reply decodes to an
  object whose \<open>score\<close> converts to the int given and whose \<open>explanation\<close> is the
  value given.
\<close>

datatype chat_outcome = ChatRaised string | ChatUnparsable string | ChatScored int pyval

record env =
  REDIS_AVAILABLE :: bool
  SERPER_API_KEY :: "string option"
  OPENAI_API_KEY :: "string option"
  gemini_model :: bool
  md5_hexdigest :: "string \<Rightarrow> string"
  py_float :: "string \<Rightarrow> pyfloat option"
  http_post_search :: "string \<Rightarrow> search_outcome"
  generate_content :: "string \<Rightarrow> string + string"
  chat_create :: "string \<Rightarrow> chat_outcome"
  redis_get_error :: "string option"
  redis_setex_error :: "string option"

text \<open>
  \<open>gemini_model\<close> tells whether the module-level model is set (not \<open>None\<close>);
  \<open>md5_hexdigest s\<close> is \<open>hashlib.md5(s.encode()).hexdigest()\<close>; \<open>py_float\<close> is the
  builtin \<open>float\<close> on a \<open>str\<close>, \<open>None\<close> for its ValueError; \<open>generate_content\<close>
  gives the text of the model's response, or \<open>Inl\<close> the message of the exception raised;
  \<open>redis_get_error\<close> and \<open>redis_setex_error\<close> hold the message of the exception that
  the cache client raises on that operation, if it does.
\<close>

definition configured :: "string option \<Rightarrow> bool" where
  \<comment> \<open>truthiness of a value of \<open>os.getenv\<close>\<close>
  "configured k = (case k of None \<Rightarrow> False | Some v \<Rightarrow> v \<noteq> [])"

text \<open>
  The calls that are recorded, to count them: \<open>Invoked\<close> when one of the three adapters
  (\<open>_search_for_evidence\<close>, \<open>_verify_with_llm\<close>, \<open>get_gpt_score\<close>) is entered, and one event
  for each request sent to the search provider, to the model of a judge or to the cache.
\<close>

datatype adapter = EvidenceGatherer | PrimaryJudge | SecondaryJudge

datatype event =
    Invoked adapter
  | SearchPost string
  | Generate string
  | ChatCreate string
  | CacheGet string
  | CacheSetex string nat

text \<open>The serialised form of a result: \<open>json.loads\<close> gives back what \<open>json.dumps\<close> took.\<close>

datatype json_doc = Doc pydict

definition json_dumps :: "pydict \<Rightarrow> json_doc" where
  "json_dumps d = Doc d"

fun json_loads :: "json_doc \<Rightarrow> pydict" where
  "json_loads (Doc d) = d"

text \<open>
  The cache store maps a key to a document and the time, in seconds, at which it
  expires; \<open>clock\<close> is the current time, which stands still during a call of
  \<open>verify_claim\<close>; \<open>trace\<close> records the calls made, oldest first.
\<close>

record state =
  store :: "string \<rightharpoonup> (json_doc \<times> nat)"
  clock :: nat
  trace :: "event list"

definition log_event :: "event \<Rightarrow> state \<Rightarrow> state" where
  "log_event e s = s\<lparr>trace := trace s @ [e]\<rparr>"

definition live_entry :: "state \<Rightarrow> string \<Rightarrow> json_doc option" where
  \<comment> \<open>the document held under a key, unless it has expired\<close>
  "live_entry s k =
     (case store s k of
        None \<Rightarrow> None
      | Some (v, expires) \<Rightarrow> if clock s < expires then Some v else None)"

definition redis_get :: "env \<Rightarrow> string \<Rightarrow> state \<Rightarrow> (string + json_doc option) \<times> state" where
  "redis_get env k s =
     (let s' = log_event (CacheGet k) s
      in case redis_get_error env of
           Some e \<Rightarrow> (Inl e, s')
         | None \<Rightarrow> (Inr (live_entry s k), s'))"

definition redis_setex :: "env \<Rightarrow> string \<Rightarrow> nat \<Rightarrow> json_doc \<Rightarrow> state \<Rightarrow> (string + unit) \<times> state" where
  "redis_setex env k ttl v s =
     (let s' = log_event (CacheSetex k ttl) s
      in case redis_setex_error env of
           Some e \<Rightarrow> (Inl e, s')
         | None \<Rightarrow> (Inr (), s'\<lparr>store := (store s')(k \<mapsto> (v, clock s' + ttl))\<rparr>))"

section \<open>Evidence gatherer: \<open>FactChecker._search_for_evidence\<close>\<close>

record evidence_item =
  title :: string
  link :: string
  snippet :: string
  source :: string

definition get_or :: "'a option \<Rightarrow> 'a \<Rightarrow> 'a" where
  \<comment> \<open>\<open>d.get(k, default)\<close> on a field that may be missing\<close>
  "get_or v d = (case v of None \<Rightarrow> d | Some x \<Rightarrow> x)"

definition make_item :: "organic_result \<Rightarrow> evidence_item" where
  "make_item result =
     \<lparr>title = strip (get_or (r_title result) []),
      link = get_or (r_link result) [],
      snippet = strip (get_or (r_snippet result) []),
      source = ''web_search''\<rparr>"

fun collect_evidence ::
  "organic_result list \<Rightarrow> string set \<Rightarrow> evidence_item list \<Rightarrow> evidence_item list" where
  \<comment> \<open>the loop over \<open>results.get('organic', [])\<close> with its \<open>seen_urls\<close> and \<open>evidence\<close>\<close>
  "collect_evidence [] seen_urls evidence = evidence"
| "collect_evidence (result # results) seen_urls evidence =
     (let url = get_or (r_link result) []
      in if url \<noteq> [] \<and> url \<notin> seen_urls
         then collect_evidence results (insert url seen_urls) (evidence @ [make_item result])
         else collect_evidence results seen_urls evidence)"

definition search_for_evidence :: "env \<Rightarrow> string \<Rightarrow> state \<Rightarrow> evidence_item list \<times> state" where
  "search_for_evidence env claim s0 =
     (let s = log_event (Invoked EvidenceGatherer) s0
      in if \<not> configured (SERPER_API_KEY env) then ([], s)
         else
           (let search_query = ''fact check '' @ claim;
                s1 = log_event (SearchPost search_query) s
            in case http_post_search env search_query of
                 SearchRaised e \<Rightarrow> ([], s1)
               | SearchReplied status_code organic \<Rightarrow>
                   if status_code = 200 then (collect_evidence organic {} [], s1)
                   else ([], s1)))"

section \<open>Primary judge: \<open>FactChecker._verify_with_llm\<close>\<close>

record judge_outcome =
  score :: pyfloat
  verdict :: string
  explanation :: string

definition evidence_text :: "evidence_item list \<Rightarrow> string" where
  "evidence_text evidence =
     join nl (map (\<lambda>(i, e). ''Source '' @ str_nat (i + 1) @ '': '' @ title e @ nl @ snippet e)
                (enumerate 0 (take 5 evidence)))"

definition primary_prompt :: "string \<Rightarrow> evidence_item list \<Rightarrow> string" where
  "primary_prompt claim evidence =
     join nl
       [''Analyze this claim and determine if it is true or false based on the evidence provided.'',
        [],
        ''Claim: '' @ dq @ claim @ dq,
        [],
        ''Evidence:'',
        evidence_text evidence,
        [],
        ''Please analyze the claim carefully and provide:'',
        ''1. A score from 0-100 (where 0 is completely false and 100 is completely true)'',
        ''2. A detailed explanation of your reasoning'',
        ''3. A clear verdict (true/false/partial)'',
        [],
        ''Format your response exactly like this:'',
        ''SCORE: [number 0-100]'',
        ''VERDICT: [true/false/partial]'',
        ''EXPLANATION: [your detailed analysis]'']"

definition clamp_score :: "pyfloat \<Rightarrow> pyfloat" where
  \<comment> \<open>\<open>max(0.0, min(100.0, score))\<close>\<close>
  "clamp_score x = py_max (Fin 0) (py_min (Fin 100) x)"

definition parse_line ::
  "(string \<Rightarrow> pyfloat option) \<Rightarrow> string \<Rightarrow> judge_outcome \<Rightarrow> string + judge_outcome" where
  \<comment> \<open>the body of the loop over the lines of the response; \<open>Inl\<close> is an exception
      that leaves the loop\<close>
  "parse_line float line st =
     (if startswith line ''SCORE:'' then
        (case index1 (split_chr CHR '':'' line) of
           Inl _ \<Rightarrow> Inr (st\<lparr>score := Fin 50\<rparr>)
         | Inr part \<Rightarrow>
             (case float (strip part) of
                None \<Rightarrow> Inr (st\<lparr>score := Fin 50\<rparr>)
              | Some x \<Rightarrow> Inr (st\<lparr>score := clamp_score x\<rparr>)))
      else if startswith line ''VERDICT:'' then
        (case index1 (split_chr CHR '':'' line) of
           Inl e \<Rightarrow> Inl e
         | Inr part \<Rightarrow>
             (let v = lower (strip part)
              in Inr (if v \<in> set [''true'', ''false'', ''partial''] then st\<lparr>verdict := v\<rparr> else st)))
      else if startswith line ''EXPLANATION:'' then
        (case index1 (split_once CHR '':'' line) of
           Inl e \<Rightarrow> Inl e
         | Inr part \<Rightarrow> Inr (st\<lparr>explanation := strip part\<rparr>))
      else Inr st)"

fun parse_lines ::
  "(string \<Rightarrow> pyfloat option) \<Rightarrow> string list \<Rightarrow> judge_outcome \<Rightarrow> string + judge_outcome" where
  "parse_lines float [] st = Inr st"
| "parse_lines float (line # lines) st =
     (case parse_line float line st of
        Inl e \<Rightarrow> Inl e
      | Inr st' \<Rightarrow> parse_lines float lines st')"

definition parse_response :: "(string \<Rightarrow> pyfloat option) \<Rightarrow> string \<Rightarrow> string + judge_outcome" where
  "parse_response float response_text =
     (let lines = split_chr (CHR 0x0A) response_text
      in case parse_lines float lines \<lparr>score = Fin 50, verdict = ''neutral'', explanation = []\<rparr> of
           Inl e \<Rightarrow> Inl e
         | Inr st \<Rightarrow>
             (let expl = (if explanation st = [] \<and> length lines > 2
                          then strip (join nl (drop 2 lines)) else explanation st)
              in Inr \<lparr>score = score st, verdict = verdict st,
                      explanation = (if expl = [] then ''No explanation provided'' else expl)\<rparr>))"

definition verify_with_llm ::
  "env \<Rightarrow> string \<Rightarrow> evidence_item list \<Rightarrow> state \<Rightarrow> (string + judge_outcome) \<times> state" where
  \<comment> \<open>\<open>Inl\<close> is the message of the exception the method raises\<close>
  "verify_with_llm env claim evidence s0 =
     (let s = log_event (Invoked PrimaryJudge) s0
      in if \<not> gemini_model env then (Inl ''Gemini model not available'', s)
         else
           (let prompt = primary_prompt claim evidence;
                s1 = log_event (Generate prompt) s
            in case generate_content env prompt of
                 Inl e \<Rightarrow> (Inl e, s1)
               | Inr response_text \<Rightarrow> (parse_response (py_float env) response_text, s1)))"

section \<open>Secondary judge: \<open>get_gpt_score\<close>\<close>

record gpt_result =
  gpt_score :: "int option"
  gpt_explanation :: pyval

definition gpt_prompt :: "string \<Rightarrow> string \<Rightarrow> string" where
  "gpt_prompt claim expl =
     join nl
       [''Analyze this claim and explanation to determine if the claim is true or false.'',
        [],
        ''Claim: '' @ dq @ claim @ dq,
        [],
        ''Explanation from analysis: '' @ dq @ expl @ dq,
        [],
        ''Based on how well the explanation proves or disproves the claim, give a score:'',
        ''0 = Completely false'',
        ''100 = Completely true'',
        [],
        ''Respond in this exact JSON format:'',
        ''{'',
        ''    '' @ dq @ ''score'' @ dq @ '': [number 0-100],'',
        ''    '' @ dq @ ''explanation'' @ dq @ '': [brief explanation of why you gave this score]'',
        ''}'']"

definition get_gpt_score :: "env \<Rightarrow> string \<Rightarrow> string \<Rightarrow> state \<Rightarrow> gpt_result \<times> state" where
  "get_gpt_score env claim expl s0 =
     (let s = log_event (Invoked SecondaryJudge) s0
      in if \<not> configured (OPENAI_API_KEY env)
         then (\<lparr>gpt_score = None, gpt_explanation = PStr ''OpenAI API key not set''\<rparr>, s)
         else
           (let prompt = gpt_prompt claim expl;
                s1 = log_event (ChatCreate prompt) s
            in case chat_create env prompt of
                 ChatRaised e \<Rightarrow>
                   (\<lparr>gpt_score = None, gpt_explanation = PStr (''Error calling GPT API: '' @ e)\<rparr>, s1)
               | ChatUnparsable e \<Rightarrow>
                   (\<lparr>gpt_score = None,
                     gpt_explanation = PStr (''Error parsing GPT response: '' @ e)\<rparr>, s1)
               | ChatScored n expl' \<Rightarrow>
                   (\<lparr>gpt_score = Some (min 100 (max 0 n)), gpt_explanation = expl'\<rparr>, s1)))"

section \<open>Orchestrator: \<open>FactChecker.verify_claim\<close>\<close>

definition rejected_result :: "string \<Rightarrow> pydict" where
  \<comment> \<open>the result of the basic validation\<close>
  "rejected_result claim =
     [(''text'', PStr claim),
      (''score'', PFloat (Fin 50)),
      (''verdict'', PStr ''neutral''),
      (''explanation'', PStr ''Claim too short or empty''),
      (''sources'', PList []),
      (''evidence'', PList []),
      (''reviews'', PList [])]"

definition error_result :: "string \<Rightarrow> string \<Rightarrow> pydict" where
  \<comment> \<open>the result of the outermost \<open>except Exception as e\<close>; the second argument is \<open>str(e)\<close>\<close>
  "error_result claim e =
     [(''text'', PStr claim),
      (''score'', PFloat (Fin 50)),
      (''verdict'', PStr ''error''),
      (''explanation'', PStr (''Error verifying claim: '' @ e)),
      (''sources'', PList []),
      (''evidence'', PList []),
      (''reviews'', PList [])]"

definition evidence_dict :: "evidence_item \<Rightarrow> pyval" where
  "evidence_dict e =
     PDict [(''title'', PStr (title e)), (''link'', PStr (link e)),
            (''snippet'', PStr (snippet e)), (''source'', PStr (source e))]"

definition float_none_error :: string where
  \<comment> \<open>\<open>str(e)\<close> of the TypeError that \<open>float(None)\<close> raises (CPython 3.10 and later)\<close>
  "float_none_error =
     ''float() argument must be a string or a real number, not '' @ [CHR 0x27] @ ''NoneType'' @ [CHR 0x27]"

definition cache_key :: "env \<Rightarrow> string \<Rightarrow> string option \<Rightarrow> string" where
  "cache_key env claim context = ''factcheck:'' @ md5_hexdigest env (claim @ get_or context [])"

definition primary_analysis ::
  "env \<Rightarrow> string \<Rightarrow> evidence_item list \<Rightarrow> state \<Rightarrow> judge_outcome \<times> state" where
  \<comment> \<open>the guarded call of the primary judge\<close>
  "primary_analysis env claim evidence s =
     (case verify_with_llm env claim evidence s of
        (Inr ai_result, s') \<Rightarrow> (ai_result, s')
      | (Inl e, s') \<Rightarrow>
          (\<lparr>score = Fin 50, verdict = ''neutral'',
            explanation = ''Error in AI analysis: '' @ e\<rparr>, s'))"

definition secondary_check :: "env \<Rightarrow> string \<Rightarrow> string \<Rightarrow> state \<Rightarrow> (pyval \<times> pyval) \<times> state" where
  \<comment> \<open>the guarded call of the secondary judge: \<open>float\<close> of its score raises on \<open>None\<close>\<close>
  "secondary_check env claim expl s =
     (case get_gpt_score env claim expl s of
        (gpt_res, s') \<Rightarrow>
          (case gpt_score gpt_res of
             None \<Rightarrow> ((PNone, PStr (''Error in GPT secondary check: '' @ float_none_error)), s')
           | Some n \<Rightarrow> ((PFloat (Fin (of_int n)), gpt_explanation gpt_res), s')))"

definition final_result :: "env \<Rightarrow> string \<Rightarrow> state \<Rightarrow> pydict \<times> state" where
  \<comment> \<open>from the gathering of the evidence to the combined result\<close>
  "final_result env claim s =
     (case search_for_evidence env claim s of
        (evidence, s1) \<Rightarrow>
          (case primary_analysis env claim evidence s1 of
             (ai, s2) \<Rightarrow>
               (case secondary_check env claim (explanation ai) s2 of
                  ((gpt_sc, gpt_expl), s3) \<Rightarrow>
                    ([(''text'', PStr claim),
                      (''score'', PFloat (score ai)),
                      (''verdict'', PStr (verdict ai)),
                      (''explanation'', PStr (explanation ai)),
                      (''evidence'', PList (map evidence_dict evidence)),
                      (''sources'', PList (map (\<lambda>e. PStr (link e))
                                              (filter (\<lambda>e. link e \<noteq> []) evidence))),
                      (''reviews'', PList []),
                      (''gpt_score'', gpt_sc),
                      (''gpt_explanation'', gpt_expl)], s3))))"

definition compute_and_cache :: "env \<Rightarrow> string \<Rightarrow> string \<Rightarrow> state \<Rightarrow> (string + pydict) \<times> state" where
  \<comment> \<open>the path after a cache miss\<close>
  "compute_and_cache env claim key s =
     (case final_result env claim s of
        (res, s') \<Rightarrow>
          if REDIS_AVAILABLE env
          then (case redis_setex env key (3600 * 24) (json_dumps res) s' of
                  (Inl e, s'') \<Rightarrow> (Inl e, s'')
                | (Inr _, s'') \<Rightarrow> (Inr res, s''))
          else (Inr res, s'))"

definition too_short :: "string \<Rightarrow> bool" where
  \<comment> \<open>\<open>not claim or len(claim.strip()) < 3\<close>\<close>
  "too_short claim = (claim = [] \<or> length (strip claim) < 3)"

definition verify_claim_try ::
  "env \<Rightarrow> string \<Rightarrow> string option \<Rightarrow> state \<Rightarrow> (string + pydict) \<times> state" where
  \<comment> \<open>the body of the outermost \<open>try\<close>; \<open>Inl\<close> is the message of an exception that leaves it\<close>
  "verify_claim_try env claim context s =
     (if too_short claim then (Inr (rejected_result claim), s)
      else
        (let key = cache_key env claim context
         in if REDIS_AVAILABLE env
            then (case redis_get env key s of
                    (Inl e, s') \<Rightarrow> (Inl e, s')
                  | (Inr (Some cached_result), s') \<Rightarrow> (Inr (json_loads cached_result), s')
                  | (Inr None, s') \<Rightarrow> compute_and_cache env claim key s')
            else compute_and_cache env claim key s))"

definition verify_claim :: "env \<Rightarrow> string \<Rightarrow> string option \<Rightarrow> state \<Rightarrow> pydict \<times> state" where
  "verify_claim env claim context s =
     (case verify_claim_try env claim context s of
        (Inl e, s') \<Rightarrow> (error_result claim e, s')
      | (Inr res, s') \<Rightarrow> (res, s'))"


section \<open>Notions used in the statements\<close>

subsection \<open>The response of the primary judge\<close>

definition in_range :: "pyfloat \<Rightarrow> bool" where
  \<comment> \<open>a finite float between 0 and 100\<close>
  "in_range v = (case v of Fin x \<Rightarrow> 0 \<le> x \<and> x \<le> 100 | _ \<Rightarrow> False)"

definition reported_score :: "(string \<Rightarrow> pyfloat option) \<Rightarrow> string \<Rightarrow> pyfloat option" where
  \<comment> \<open>the number a \<open>SCORE:\<close> line reports: \<open>float\<close> of the text between its first two
      colons, \<open>None\<close> when that is not a number\<close>
  "reported_score float line =
     (case index1 (split_chr CHR '':'' line) of Inl _ \<Rightarrow> None | Inr part \<Rightarrow> float (strip part))"

definition score_assigned :: "pyfloat option \<Rightarrow> pyfloat" where
  \<comment> \<open>the clamped number, or the default when there is none\<close>
  "score_assigned r = (case r of None \<Rightarrow> Fin 50 | Some x \<Rightarrow> clamp_score x)"

definition reported_verdict :: "string \<Rightarrow> string" where
  \<comment> \<open>the token a \<open>VERDICT:\<close> line reports, in lower case\<close>
  "reported_verdict line =
     (case index1 (split_chr CHR '':'' line) of Inl _ \<Rightarrow> [] | Inr part \<Rightarrow> lower (strip part))"

definition recognised :: "string \<Rightarrow> bool" where
  \<comment> \<open>a \<open>VERDICT:\<close> line whose token is one of the three the judge may give\<close>
  "recognised line =
     (startswith line ''VERDICT:'' \<and> reported_verdict line \<in> {''true'', ''false'', ''partial''})"

definition verdicts :: "string set" where
  \<comment> \<open>the verdicts an outcome of the primary judge may carry\<close>
  "verdicts = {''true'', ''false'', ''partial'', ''neutral''}"

definition response_lines :: "string \<Rightarrow> string list" where
  \<comment> \<open>the lines of a response, split at the newline character\<close>
  "response_lines response_text = split_chr (CHR 0x0A) response_text"

subsection \<open>Deduplication\<close>

text \<open>
  Deduplication as the specification words it: entries without a link are dropped, the
  first entry with a link is kept, and every later entry with that link is dropped.
\<close>

definition link_of :: "organic_result \<Rightarrow> string" where
  \<comment> \<open>\<open>result.get('link', '')\<close>\<close>
  "link_of result = get_or (r_link result) []"

fun keep_first :: "organic_result list \<Rightarrow> organic_result list" where
  "keep_first [] = []"
| "keep_first (r # rs) =
     (if link_of r = [] then keep_first rs
      else r # keep_first (filter (\<lambda>r'. link_of r' \<noteq> link_of r) rs))"

subsection \<open>What the adapters return\<close>

text \<open>The values the adapters return; they do not depend on the state.\<close>

definition gathered :: "env \<Rightarrow> string \<Rightarrow> evidence_item list" where
  \<comment> \<open>the evidence that \<open>search_for_evidence\<close> returns\<close>
  "gathered env claim =
     (if \<not> configured (SERPER_API_KEY env) then []
      else case http_post_search env (''fact check '' @ claim) of
             SearchRaised e \<Rightarrow> []
           | SearchReplied status_code organic \<Rightarrow>
               if status_code = 200 then collect_evidence organic {} [] else [])"

definition judged :: "env \<Rightarrow> string \<Rightarrow> evidence_item list \<Rightarrow> string + judge_outcome" where
  \<comment> \<open>what \<open>verify_with_llm\<close> returns or raises\<close>
  "judged env claim evidence =
     (if \<not> gemini_model env then Inl ''Gemini model not available''
      else case generate_content env (primary_prompt claim evidence) of
             Inl e \<Rightarrow> Inl e
           | Inr response_text \<Rightarrow> parse_response (py_float env) response_text)"

definition primary_outcome :: "env \<Rightarrow> string \<Rightarrow> evidence_item list \<Rightarrow> judge_outcome" where
  \<comment> \<open>what the guarded call of the primary judge yields\<close>
  "primary_outcome env claim evidence =
     (case judged env claim evidence of
        Inr ai_result \<Rightarrow> ai_result
      | Inl e \<Rightarrow> \<lparr>score = Fin 50, verdict = ''neutral'', explanation = ''Error in AI analysis: '' @ e\<rparr>)"

definition gpt_reply :: "env \<Rightarrow> string \<Rightarrow> string \<Rightarrow> gpt_result" where
  \<comment> \<open>what \<open>get_gpt_score\<close> returns\<close>
  "gpt_reply env claim expl =
     (if \<not> configured (OPENAI_API_KEY env)
      then \<lparr>gpt_score = None, gpt_explanation = PStr ''OpenAI API key not set''\<rparr>
      else case chat_create env (gpt_prompt claim expl) of
             ChatRaised e \<Rightarrow>
               \<lparr>gpt_score = None, gpt_explanation = PStr (''Error calling GPT API: '' @ e)\<rparr>
           | ChatUnparsable e \<Rightarrow>
               \<lparr>gpt_score = None, gpt_explanation = PStr (''Error parsing GPT response: '' @ e)\<rparr>
           | ChatScored n expl' \<Rightarrow>
               \<lparr>gpt_score = Some (min 100 (max 0 n)), gpt_explanation = expl'\<rparr>)"

definition secondary_outcome :: "env \<Rightarrow> string \<Rightarrow> string \<Rightarrow> pyval \<times> pyval" where
  \<comment> \<open>what the guarded call of the secondary judge yields: score and explanation\<close>
  "secondary_outcome env claim expl =
     (case gpt_score (gpt_reply env claim expl) of
        None \<Rightarrow> (PNone, PStr (''Error in GPT secondary check: '' @ float_none_error))
      | Some n \<Rightarrow> (PFloat (Fin (of_int n)), gpt_explanation (gpt_reply env claim expl)))"

subsection \<open>What the adapters record\<close>

definition add_events :: "event list \<Rightarrow> state \<Rightarrow> state" where
  \<comment> \<open>the state with more calls recorded\<close>
  "add_events evs s = s\<lparr>trace := trace s @ evs\<rparr>"

definition search_events :: "env \<Rightarrow> string \<Rightarrow> event list" where
  \<comment> \<open>the calls that \<open>search_for_evidence\<close> records\<close>
  "search_events env claim =
     Invoked EvidenceGatherer #
       (if configured (SERPER_API_KEY env) then [SearchPost (''fact check '' @ claim)] else [])"

definition primary_events :: "env \<Rightarrow> string \<Rightarrow> evidence_item list \<Rightarrow> event list" where
  \<comment> \<open>the calls that \<open>verify_with_llm\<close> records\<close>
  "primary_events env claim evidence =
     Invoked PrimaryJudge #
       (if gemini_model env then [Generate (primary_prompt claim evidence)] else [])"

definition secondary_events :: "env \<Rightarrow> string \<Rightarrow> string \<Rightarrow> event list" where
  \<comment> \<open>the calls that \<open>get_gpt_score\<close> records\<close>
  "secondary_events env claim expl =
     Invoked SecondaryJudge #
       (if configured (OPENAI_API_KEY env) then [ChatCreate (gpt_prompt claim expl)] else [])"

definition pipeline_events :: "env \<Rightarrow> string \<Rightarrow> event list" where
  \<comment> \<open>the calls recorded from the gathering to the combined result\<close>
  "pipeline_events env claim =
     search_events env claim @ primary_events env claim (gathered env claim) @
     secondary_events env claim (explanation (primary_outcome env claim (gathered env claim)))"

definition lookup_events :: "env \<Rightarrow> string \<Rightarrow> string option \<Rightarrow> event list" where
  \<comment> \<open>the call recorded by the read of the cache\<close>
  "lookup_events env claim context =
     (if REDIS_AVAILABLE env then [CacheGet (cache_key env claim context)] else [])"

definition write_events :: "env \<Rightarrow> string \<Rightarrow> string option \<Rightarrow> event list" where
  \<comment> \<open>the call recorded by the write to the cache\<close>
  "write_events env claim context =
     (if REDIS_AVAILABLE env then [CacheSetex (cache_key env claim context) 86400] else [])"

definition calls :: "adapter \<Rightarrow> state \<Rightarrow> nat" where
  \<comment> \<open>how often an adapter has been invoked so far\<close>
  "calls a s = count_list (trace s) (Invoked a)"

definition events_since :: "state \<Rightarrow> state \<Rightarrow> event list" where
  \<comment> \<open>the calls recorded between an earlier state and a later one\<close>
  "events_since s s' = drop (length (trace s)) (trace s')"

subsection \<open>Paths through the orchestrator\<close>

definition cache_miss :: "env \<Rightarrow> string \<Rightarrow> string option \<Rightarrow> state \<Rightarrow> bool" where
  \<comment> \<open>the claim passes the validation and the cache, if there is one, answers with nothing\<close>
  "cache_miss env claim context s =
     (\<not> too_short claim \<and>
      (REDIS_AVAILABLE env \<longrightarrow>
         redis_get_error env = None \<and> live_entry s (cache_key env claim context) = None))"

definition write_ok :: "env \<Rightarrow> bool" where
  \<comment> \<open>the write to the cache, if there is one, does not raise\<close>
  "write_ok env = (REDIS_AVAILABLE env \<longrightarrow> redis_setex_error env = None)"

definition after_lookup :: "env \<Rightarrow> string \<Rightarrow> string option \<Rightarrow> state \<Rightarrow> state" where
  \<comment> \<open>the state in which the evidence is gathered\<close>
  "after_lookup env claim context s =
     (if REDIS_AVAILABLE env then log_event (CacheGet (cache_key env claim context)) s else s)"

definition cache_write :: "env \<Rightarrow> string \<Rightarrow> string option \<Rightarrow> pydict \<Rightarrow> state \<Rightarrow> state" where
  \<comment> \<open>the effect of a write to the cache that does not raise\<close>
  "cache_write env claim context res s =
     (if REDIS_AVAILABLE env
      then (let s' = log_event (CacheSetex (cache_key env claim context) 86400) s
            in s'\<lparr>store := (store s')(cache_key env claim context \<mapsto> (json_dumps res, clock s' + 86400))\<rparr>)
      else s)"

definition later :: "nat \<Rightarrow> state \<Rightarrow> state" where
  \<comment> \<open>the same state some seconds later\<close>
  "later d s = s\<lparr>clock := clock s + d\<rparr>"

definition served_from_cache ::
  "env \<Rightarrow> env \<Rightarrow> string \<Rightarrow> string option \<Rightarrow> state \<Rightarrow> nat \<Rightarrow> bool" where
  \<comment> \<open>two calls with the same claim and context, the second some seconds after the first
      and with the collaborators as they are then: the second returns what the first
      returned, each adapter is invoked once by the first and not by the second, and the
      first has stored its result with an expiry of 24 hours\<close>
  "served_from_cache env env' claim context s d =
     (case verify_claim env claim context s of
        (r1, s1) \<Rightarrow>
          (case verify_claim env' claim context (later d s1) of
             (r2, s2) \<Rightarrow>
               r2 = r1 \<and>
               (\<forall>a. calls a s1 = calls a s + 1 \<and> calls a s2 = calls a s1) \<and>
               store s1 (cache_key env claim context) = Some (json_dumps r1, clock s1 + 86400)))"

subsection \<open>Keys of the results\<close>

definition result_keys :: "string list" where
  \<comment> \<open>the keys of the validation result and of the error result, in their order\<close>
  "result_keys = [''text'', ''score'', ''verdict'', ''explanation'', ''sources'', ''evidence'', ''reviews'']"

definition full_keys :: "string list" where
  \<comment> \<open>the keys of the combined result, in its order\<close>
  "full_keys = [''text'', ''score'', ''verdict'', ''explanation'', ''evidence'', ''sources'',
                ''reviews'', ''gpt_score'', ''gpt_explanation'']"

section \<open>A test configuration\<close>

text \<open>Stand-ins for the collaborators, to run the definitions on concrete inputs.\<close>

definition float_stub :: "string \<Rightarrow> pyfloat option" where
  \<comment> \<open>a \<open>float\<close> that knows three literals\<close>
  "float_stub s =
     (if s = ''150'' then Some (Fin 150)
      else if s = ''-10'' then Some (Fin (- 10))
      else if s = ''5'' then Some (Fin 5)
      else None)"

definition organic_stub :: "organic_result list" where
  "organic_stub =
     [\<lparr>r_title = Some '' NASA '', r_link = Some ''https://nasa.gov/wall'', r_snippet = Some ''Not visible.''\<rparr>,
      \<lparr>r_title = Some ''No link'', r_link = None, r_snippet = None\<rparr>,
      \<lparr>r_title = Some ''Mirror'', r_link = Some ''https://nasa.gov/wall'', r_snippet = Some ''Copy''\<rparr>,
      \<lparr>r_title = None, r_link = Some ''https://example.org/a'', r_snippet = Some ''Other''\<rparr>]"

definition response_stub :: string where
  "response_stub = ''SCORE: 5'' @ nl @ ''VERDICT: False'' @ nl @ ''EXPLANATION: NASA says no.''"

definition test_env :: env where
  \<comment> \<open>every collaborator answers, the cache is empty and reachable\<close>
  "test_env =
     \<lparr>REDIS_AVAILABLE = True,
      SERPER_API_KEY = Some ''serper-key'',
      OPENAI_API_KEY = Some ''openai-key'',
      gemini_model = True,
      md5_hexdigest = (\<lambda>s. s),
      py_float = float_stub,
      http_post_search = (\<lambda>q. SearchReplied 200 organic_stub),
      generate_content = (\<lambda>p. Inr response_stub),
      chat_create = (\<lambda>p. ChatScored 130 (PStr ''Agrees'')),
      redis_get_error = None,
      redis_setex_error = None\<rparr>"

definition test_state :: state where
  "test_state = \<lparr>store = Map.empty, clock = 1000, trace = []\<rparr>"

definition test_claim :: string where
  "test_claim = ''The Great Wall is visible from space''"


section \<open>Parsing the response of the primary judge\<close>

lemma clamp_score_in_range: "in_range (clamp_score x)"
  by (cases x) (simp_all add: clamp_score_def py_min_def py_max_def in_range_def)

lemma score_assigned_in_range: "in_range (score_assigned r)"
  by (cases r) (simp_all add: score_assigned_def clamp_score_in_range, simp add: in_range_def)

lemma split_chr_not_Nil: "split_chr c s \<noteq> []"
  by (induction s) (auto split: list.splits)

lemma split_chr_two: "c \<in> set s \<Longrightarrow> \<exists>a b rest. split_chr c s = a # b # rest"
proof (induction s)
  case Nil
  then show ?case by simp
next
  case (Cons x xs)
  show ?case
  proof (cases "x = c")
    case True
    obtain w ws where "split_chr c xs = w # ws"
      using split_chr_not_Nil [of c xs] by (cases "split_chr c xs") auto
    with True show ?thesis by simp
  next
    case False
    with Cons.prems have "c \<in> set xs" by simp
    then obtain a b rest where "split_chr c xs = a # b # rest"
      using Cons.IH by blast
    with False show ?thesis by simp
  qed
qed

lemma index1_split_chr: "c \<in> set s \<Longrightarrow> \<exists>p. index1 (split_chr c s) = Inr p"
  using split_chr_two [of c s] by (auto simp: index1_def)

lemma index1_split_once:
  "c \<in> set s \<Longrightarrow> index1 (split_once c s) = Inr (tl (dropWhile (\<lambda>x. x \<noteq> c) s))"
  by (simp add: index1_def split_once_def)

lemma startswith_mem: "startswith line p \<Longrightarrow> c \<in> set p \<Longrightarrow> c \<in> set line"
  unfolding startswith_def by (metis in_set_takeD)

lemma startswith_hd: "startswith line (c # p) \<Longrightarrow> \<exists>rest. line = c # rest"
  by (cases line) (auto simp: startswith_def)

lemma verdict_not_score: "startswith line ''VERDICT:'' \<Longrightarrow> \<not> startswith line ''SCORE:''"
  by (auto dest!: startswith_hd)

lemma parse_line_score:
  "startswith line ''SCORE:'' \<Longrightarrow>
   parse_line float line st = Inr (st\<lparr>score := score_assigned (reported_score float line)\<rparr>)"
  by (simp add: parse_line_def reported_score_def score_assigned_def
           split: sum.splits option.splits)

lemma parse_line_verdict:
  "startswith line ''VERDICT:'' \<Longrightarrow>
   parse_line float line st =
     Inr (if reported_verdict line \<in> {''true'', ''false'', ''partial''}
          then st\<lparr>verdict := reported_verdict line\<rparr> else st)"
  using index1_split_chr [of "CHR '':''" line] startswith_mem [of line "''VERDICT:''" "CHR '':''"]
  by (auto simp: parse_line_def reported_verdict_def Let_def verdict_not_score split: sum.splits)

lemma parse_line_explanation:
  "\<not> startswith line ''SCORE:'' \<Longrightarrow> \<not> startswith line ''VERDICT:'' \<Longrightarrow>
   \<exists>e. parse_line float line st = Inr (st\<lparr>explanation := e\<rparr>)"
proof (cases "startswith line ''EXPLANATION:''")
  case True
  assume "\<not> startswith line ''SCORE:''" "\<not> startswith line ''VERDICT:''"
  moreover have "CHR '':'' \<in> set line"
    using True by (rule startswith_mem) simp
  ultimately have "parse_line float line st =
      Inr (st\<lparr>explanation := strip (tl (dropWhile (\<lambda>x. x \<noteq> CHR '':'') line))\<rparr>)"
    using True by (simp add: parse_line_def index1_split_once)
  then show ?thesis by blast
next
  case False
  assume "\<not> startswith line ''SCORE:''" "\<not> startswith line ''VERDICT:''"
  with False have "parse_line float line st = Inr (st\<lparr>explanation := explanation st\<rparr>)"
    by (simp add: parse_line_def)
  then show ?thesis by blast
qed

lemma parse_line_total: "\<exists>st'. parse_line float line st = Inr st'"
  using parse_line_score [of line float st] parse_line_verdict [of line float st]
    parse_line_explanation [of line float st]
  by (cases "startswith line ''SCORE:''"; cases "startswith line ''VERDICT:''") auto

lemma parse_line_keeps_score:
  "\<not> startswith line ''SCORE:'' \<Longrightarrow> parse_line float line st = Inr st' \<Longrightarrow> score st' = score st"
  using parse_line_verdict [of line float st] parse_line_explanation [of line float st]
  by (cases "startswith line ''VERDICT:''") (auto split: if_splits)

lemma parse_line_keeps_verdict:
  "\<not> (startswith line ''VERDICT:'' \<and> reported_verdict line \<in> {''true'', ''false'', ''partial''}) \<Longrightarrow>
   parse_line float line st = Inr st' \<Longrightarrow> verdict st' = verdict st"
  using parse_line_verdict [of line float st] parse_line_explanation [of line float st]
    parse_line_score [of line float st]
  by (cases "startswith line ''SCORE:''"; cases "startswith line ''VERDICT:''") (auto split: if_splits)

lemma parse_line_in_range:
  "parse_line float line st = Inr st' \<Longrightarrow> in_range (score st) \<Longrightarrow> in_range (score st')"
  using parse_line_score [of line float st] parse_line_keeps_score [of line float st st']
  by (cases "startswith line ''SCORE:''") (auto simp: score_assigned_in_range)

lemma parse_line_verdicts:
  "parse_line float line st = Inr st' \<Longrightarrow> verdict st \<in> verdicts \<Longrightarrow> verdict st' \<in> verdicts"
  using parse_line_verdict [of line float st] parse_line_keeps_verdict [of line float st st']
  by (cases "startswith line ''VERDICT:'' \<and> reported_verdict line \<in> {''true'', ''false'', ''partial''}")
     (auto simp: verdicts_def)

lemma parse_lines_total: "\<exists>st'. parse_lines float lines st = Inr st'"
proof (induction lines arbitrary: st)
  case Nil
  show ?case by simp
next
  case (Cons l ls)
  obtain st1 where "parse_line float l st = Inr st1"
    using parse_line_total by blast
  with Cons.IH [of st1] show ?case by simp
qed

lemma parse_lines_append:
  "parse_lines float (xs @ ys) st =
     (case parse_lines float xs st of Inl e \<Rightarrow> Inl e | Inr st' \<Rightarrow> parse_lines float ys st')"
  by (induction xs arbitrary: st) (auto split: sum.splits)

lemma parse_lines_in_range:
  "parse_lines float lines st = Inr st' \<Longrightarrow> in_range (score st) \<Longrightarrow> in_range (score st')"
  by (induction lines arbitrary: st) (auto split: sum.splits dest: parse_line_in_range)

lemma parse_lines_verdicts:
  "parse_lines float lines st = Inr st' \<Longrightarrow> verdict st \<in> verdicts \<Longrightarrow> verdict st' \<in> verdicts"
  by (induction lines arbitrary: st) (auto split: sum.splits dest: parse_line_verdicts)


lemma parse_lines_keeps_verdict:
  "\<forall>l \<in> set lines. startswith l ''VERDICT:'' \<longrightarrow> reported_verdict l \<notin> {''true'', ''false'', ''partial''} \<Longrightarrow>
   parse_lines float lines st = Inr st' \<Longrightarrow> verdict st' = verdict st"
proof (induction lines arbitrary: st)
  case Nil
  then show ?case by simp
next
  case (Cons l ls)
  obtain st1 where l: "parse_line float l st = Inr st1"
    using parse_line_total by blast
  have "verdict st1 = verdict st"
    using Cons.prems(1) by (intro parse_line_keeps_verdict [OF _ l]) auto
  moreover have "verdict st' = verdict st1"
    using Cons.prems l by (intro Cons.IH) auto
  ultimately show ?case by simp
qed


lemma parse_response_eq:
  "\<exists>st e. parse_lines float (response_lines text)
              \<lparr>score = Fin 50, verdict = ''neutral'', explanation = []\<rparr> = Inr st \<and>
          parse_response float text = Inr \<lparr>score = score st, verdict = verdict st, explanation = e\<rparr>"
proof -
  obtain st where "parse_lines float (response_lines text)
              \<lparr>score = Fin 50, verdict = ''neutral'', explanation = []\<rparr> = Inr st"
    using parse_lines_total by blast
  then show ?thesis by (simp add: parse_response_def response_lines_def Let_def)
qed

lemma parse_response_in_range:
  "\<exists>out. parse_response float text = Inr out \<and> in_range (score out) \<and> verdict out \<in> verdicts"
proof -
  obtain st e where st: "parse_lines float (response_lines text)
              \<lparr>score = Fin 50, verdict = ''neutral'', explanation = []\<rparr> = Inr st"
    and out: "parse_response float text = Inr \<lparr>score = score st, verdict = verdict st, explanation = e\<rparr>"
    using parse_response_eq by blast
  have "in_range (score st)"
    using st by (rule parse_lines_in_range) (simp add: in_range_def)
  moreover have "verdict st \<in> verdicts"
    using st by (rule parse_lines_verdicts) (simp add: verdicts_def)
  ultimately show ?thesis using out by simp
qed


section \<open>What the adapters return and record\<close>

lemma add_events_add_events [simp]: "add_events ys (add_events xs s) = add_events (xs @ ys) s"
  by (simp add: add_events_def)

lemma log_event_add_events: "log_event e s = add_events [e] s"
  by (simp add: log_event_def add_events_def)

lemma search_for_evidence_state:
  "snd (search_for_evidence env claim s) = add_events (search_events env claim) s"
  by (simp add: search_for_evidence_def search_events_def log_event_add_events Let_def
           split: search_outcome.splits)

lemma verify_with_llm_state:
  "snd (verify_with_llm env claim evidence s) = add_events (primary_events env claim evidence) s"
  by (simp add: verify_with_llm_def primary_events_def log_event_add_events Let_def
           split: sum.splits)

lemma primary_analysis_state:
  "snd (primary_analysis env claim evidence s) = add_events (primary_events env claim evidence) s"
  using verify_with_llm_state [of env claim evidence s]
  by (cases "verify_with_llm env claim evidence s")
     (auto simp: primary_analysis_def split: sum.splits)

lemma get_gpt_score_state:
  "snd (get_gpt_score env claim expl s) = add_events (secondary_events env claim expl) s"
  by (simp add: get_gpt_score_def secondary_events_def log_event_add_events Let_def
           split: chat_outcome.splits)

lemma secondary_check_state:
  "snd (secondary_check env claim expl s) = add_events (secondary_events env claim expl) s"
  using get_gpt_score_state [of env claim expl s]
  by (cases "get_gpt_score env claim expl s")
     (auto simp: secondary_check_def split: option.splits)

lemma search_for_evidence_value: "fst (search_for_evidence env claim s) = gathered env claim"
  by (simp add: search_for_evidence_def gathered_def Let_def split: search_outcome.splits)

lemma verify_with_llm_value: "fst (verify_with_llm env claim evidence s) = judged env claim evidence"
  by (simp add: verify_with_llm_def judged_def Let_def split: sum.splits)

lemma primary_analysis_value:
  "fst (primary_analysis env claim evidence s) = primary_outcome env claim evidence"
  using verify_with_llm_value [of env claim evidence s]
  by (cases "verify_with_llm env claim evidence s")
     (auto simp: primary_analysis_def primary_outcome_def split: sum.splits)

lemma final_result_state:
  "snd (final_result env claim s) =
     add_events (search_events env claim @ primary_events env claim (gathered env claim) @
                 secondary_events env claim
                   (explanation (primary_outcome env claim (gathered env claim)))) s"
proof -
  obtain evidence s1 where a: "search_for_evidence env claim s = (evidence, s1)"
    by (cases "search_for_evidence env claim s")
  obtain ai s2 where b: "primary_analysis env claim evidence s1 = (ai, s2)"
    by (cases "primary_analysis env claim evidence s1")
  obtain g s3 where c: "secondary_check env claim (explanation ai) s2 = (g, s3)"
    by (cases "secondary_check env claim (explanation ai) s2")
  have ev: "evidence = gathered env claim" and s1: "s1 = add_events (search_events env claim) s"
    using a search_for_evidence_value [of env claim s] search_for_evidence_state [of env claim s]
    by simp_all
  have ai: "ai = primary_outcome env claim evidence"
    and s2: "s2 = add_events (primary_events env claim evidence) s1"
    using b primary_analysis_value [of env claim evidence s1]
      primary_analysis_state [of env claim evidence s1] by simp_all
  have s3: "s3 = add_events (secondary_events env claim (explanation ai)) s2"
    using c secondary_check_state [of env claim "explanation ai" s2] by simp
  have "snd (final_result env claim s) = s3"
    using a b c by (simp add: final_result_def split: prod.splits)
  then show ?thesis
    by (simp add: s3 s2 s1 ai ev)
qed



section \<open>The paths through the orchestrator\<close>

lemma get_gpt_score_value: "fst (get_gpt_score env claim expl s) = gpt_reply env claim expl"
  by (simp add: get_gpt_score_def gpt_reply_def Let_def split: chat_outcome.splits)

lemma secondary_check_value:
  "fst (secondary_check env claim expl s) = secondary_outcome env claim expl"
  using get_gpt_score_value [of env claim expl s]
  by (cases "get_gpt_score env claim expl s")
     (auto simp: secondary_check_def secondary_outcome_def split: option.splits)

lemma final_result_value:
  "fst (final_result env claim s) =
     (let evidence = gathered env claim;
          ai = primary_outcome env claim evidence;
          sec = secondary_outcome env claim (explanation ai)
      in [(''text'', PStr claim),
          (''score'', PFloat (score ai)),
          (''verdict'', PStr (verdict ai)),
          (''explanation'', PStr (explanation ai)),
          (''evidence'', PList (map evidence_dict evidence)),
          (''sources'', PList (map (\<lambda>e. PStr (link e)) (filter (\<lambda>e. link e \<noteq> []) evidence))),
          (''reviews'', PList []),
          (''gpt_score'', fst sec),
          (''gpt_explanation'', snd sec)])"
proof -
  obtain evidence s1 where a: "search_for_evidence env claim s = (evidence, s1)"
    by (cases "search_for_evidence env claim s")
  obtain ai s2 where b: "primary_analysis env claim evidence s1 = (ai, s2)"
    by (cases "primary_analysis env claim evidence s1")
  obtain g ge s3 where c: "secondary_check env claim (explanation ai) s2 = ((g, ge), s3)"
    by (cases "secondary_check env claim (explanation ai) s2") auto
  have ev: "evidence = gathered env claim"
    using a search_for_evidence_value [of env claim s] by simp
  have ai: "ai = primary_outcome env claim evidence"
    using b primary_analysis_value [of env claim evidence s1] by simp
  have sec: "secondary_outcome env claim (explanation ai) = (g, ge)"
    using c secondary_check_value [of env claim "explanation ai" s2] by simp
  show ?thesis
    using a b c sec by (simp add: final_result_def Let_def ai [symmetric] ev [symmetric])
qed

lemma final_result_same_value: "fst (final_result env claim s) = fst (final_result env claim s')"
  by (simp add: final_result_value)

lemma verify_claim_rejected:
  "too_short claim \<Longrightarrow> verify_claim env claim context s = (rejected_result claim, s)"
  by (simp add: verify_claim_def verify_claim_try_def)

lemma verify_claim_hit:
  "\<not> too_short claim \<Longrightarrow> REDIS_AVAILABLE env \<Longrightarrow> redis_get_error env = None \<Longrightarrow>
   live_entry s (cache_key env claim context) = Some doc \<Longrightarrow>
   verify_claim env claim context s =
     (json_loads doc, log_event (CacheGet (cache_key env claim context)) s)"
  by (simp add: verify_claim_def verify_claim_try_def redis_get_def Let_def)

lemma verify_claim_try_get_error:
  "\<not> too_short claim \<Longrightarrow> REDIS_AVAILABLE env \<Longrightarrow> redis_get_error env = Some e \<Longrightarrow>
   verify_claim_try env claim context s =
     (Inl e, log_event (CacheGet (cache_key env claim context)) s)"
  by (simp add: verify_claim_try_def redis_get_def Let_def)

lemma verify_claim_try_miss:
  "cache_miss env claim context s \<Longrightarrow>
   verify_claim_try env claim context s =
     compute_and_cache env claim (cache_key env claim context) (after_lookup env claim context s)"
  by (auto simp: cache_miss_def verify_claim_try_def redis_get_def after_lookup_def Let_def)

lemma compute_and_cache_ok:
  "write_ok env \<Longrightarrow>
   compute_and_cache env claim (cache_key env claim context) s =
     (Inr (fst (final_result env claim s)),
      cache_write env claim context (fst (final_result env claim s)) (snd (final_result env claim s)))"
  by (cases "final_result env claim s")
     (auto simp: write_ok_def compute_and_cache_def cache_write_def redis_setex_def Let_def)


lemma verify_claim_miss:
  "cache_miss env claim context s \<Longrightarrow> write_ok env \<Longrightarrow>
   verify_claim env claim context s =
     (fst (final_result env claim (after_lookup env claim context s)),
      cache_write env claim context (fst (final_result env claim (after_lookup env claim context s)))
        (snd (final_result env claim (after_lookup env claim context s))))"
  by (simp add: verify_claim_def verify_claim_try_miss compute_and_cache_ok)



section \<open>The results of the orchestrator\<close>

lemma final_result_keys: "dict_keys (fst (final_result env claim s)) = full_keys"
  by (simp add: final_result_value dict_keys_def full_keys_def Let_def)

lemma rejected_result_keys: "dict_keys (rejected_result claim) = result_keys"
  by (simp add: rejected_result_def dict_keys_def result_keys_def)

lemma error_result_keys: "dict_keys (error_result claim e) = result_keys"
  by (simp add: error_result_def dict_keys_def result_keys_def)

lemma verify_claim_raised:
  "verify_claim_try env claim context s = (Inl e, s') \<Longrightarrow>
   verify_claim env claim context s = (error_result claim e, s')"
  by (simp add: verify_claim_def)


lemma test_claim_long: "\<not> too_short test_claim"
  by (simp add: too_short_def test_claim_def strip_def py_isspace_def)



section \<open>More on the response of the primary judge\<close>

lemma parse_lines_unrecognised:
  "\<forall>l \<in> set lines. \<not> recognised l \<Longrightarrow>
   parse_lines float lines st = Inr st' \<Longrightarrow> verdict st' = verdict st"
  by (rule parse_lines_keeps_verdict) (auto simp: recognised_def)

lemma parse_lines_last_verdict:
  assumes "recognised line" and "\<forall>l \<in> set post. \<not> recognised l"
  shows "\<exists>st'. parse_lines float (pre @ line # post) st = Inr st' \<and>
           verdict st' = reported_verdict line"
proof -
  obtain st1 where pre: "parse_lines float pre st = Inr st1"
    using parse_lines_total by blast
  let ?st2 = "st1\<lparr>verdict := reported_verdict line\<rparr>"
  have line: "parse_line float line st1 = Inr ?st2"
    using assms(1) by (simp add: recognised_def parse_line_verdict)
  obtain st3 where post: "parse_lines float post ?st2 = Inr st3"
    using parse_lines_total by blast
  have "verdict st3 = verdict ?st2"
    using assms(2) post by (rule parse_lines_unrecognised)
  moreover have "parse_lines float (pre @ line # post) st = Inr st3"
    using pre post line by (simp add: parse_lines_append)
  ultimately show ?thesis by simp
qed


lemma parse_response_verdict:
  assumes "response_lines text = pre @ line # post" and "recognised line"
    and "\<forall>l \<in> set post. \<not> recognised l"
  shows "\<exists>out. parse_response float text = Inr out \<and> verdict out = reported_verdict line"
proof -
  obtain st e where st: "parse_lines float (response_lines text)
              \<lparr>score = Fin 50, verdict = ''neutral'', explanation = []\<rparr> = Inr st"
    and out: "parse_response float text = Inr \<lparr>score = score st, verdict = verdict st, explanation = e\<rparr>"
    using parse_response_eq by blast
  from parse_lines_last_verdict [OF assms(2,3), of float pre
      "\<lparr>score = Fin 50, verdict = ''neutral'', explanation = []\<rparr>"] st assms(1)
  have "verdict st = reported_verdict line" by auto
  with out show ?thesis by simp
qed

lemma parse_response_neutral:
  assumes "\<forall>l \<in> set (response_lines text). \<not> recognised l"
  shows "\<exists>out. parse_response float text = Inr out \<and> verdict out = ''neutral''"
proof -
  obtain st e where st: "parse_lines float (response_lines text)
              \<lparr>score = Fin 50, verdict = ''neutral'', explanation = []\<rparr> = Inr st"
    and out: "parse_response float text = Inr \<lparr>score = score st, verdict = verdict st, explanation = e\<rparr>"
    using parse_response_eq by blast
  from parse_lines_unrecognised [OF assms st] out show ?thesis by simp
qed

lemma primary_outcome_sound:
  "in_range (score (primary_outcome env claim evidence)) \<and>
   verdict (primary_outcome env claim evidence) \<in> verdicts"
proof (cases "judged env claim evidence")
  case (Inl e)
  then show ?thesis
    by (simp add: primary_outcome_def in_range_def verdicts_def)
next
  case (Inr out)
  then have "\<exists>resp. parse_response (py_float env) resp = Inr out"
    by (auto simp: judged_def split: if_splits sum.splits)
  then obtain resp where "parse_response (py_float env) resp = Inr out" by blast
  with parse_response_in_range [of "py_float env" resp] Inr show ?thesis
    by (simp add: primary_outcome_def)
qed

lemma final_result_score:
  "dict_get (fst (final_result env claim s)) ''score'' =
     Some (PFloat (score (primary_outcome env claim (gathered env claim))))"
  by (simp add: final_result_value dict_get_def Let_def)

lemma final_result_verdict:
  "dict_get (fst (final_result env claim s)) ''verdict'' =
     Some (PStr (verdict (primary_outcome env claim (gathered env claim))))"
  by (simp add: final_result_value dict_get_def Let_def)

lemma response_stub_lines:
  "response_lines (''SCORE: 150'' @ nl @ ''VERDICT: maybe'' @ nl @ ''EXPLANATION: none'') =
     [] @ ''SCORE: 150'' # [''VERDICT: maybe'', ''EXPLANATION: none'']"
  by (simp add: response_lines_def nl_def)

lemma response_low_lines:
  "response_lines (''VERDICT: Partial'' @ nl @ ''SCORE: -10'') =
     [''VERDICT: Partial''] @ ''SCORE: -10'' # []"
  by (simp add: response_lines_def nl_def)



lemma reported_verdict_Partial: "reported_verdict ''VERDICT: Partial'' = ''partial''"
  by code_simp


section \<open>The evidence gatherer\<close>

lemma link_make_item: "link (make_item r) = link_of r"
  by (simp add: make_item_def link_of_def)

lemma collect_evidence_keep_first:
  "collect_evidence rs seen acc =
     acc @ map make_item (keep_first (filter (\<lambda>r. link_of r \<notin> seen) rs))"
proof (induction rs arbitrary: seen acc)
  case Nil
  show ?case by simp
next
  case (Cons r rs)
  have f: "filter (\<lambda>r'. link_of r' \<noteq> link_of r) (filter (\<lambda>r'. link_of r' \<notin> seen) rs) =
           filter (\<lambda>r'. link_of r' \<notin> insert (link_of r) seen) rs"
    by (induction rs) auto
  show ?case
    using Cons.IH [of "insert (link_of r) seen" "acc @ [make_item r]"] Cons.IH [of seen acc] f
    by (auto simp: Let_def link_of_def [symmetric])
qed


lemma keep_first_links: "set (map link_of (keep_first rs)) = set (map link_of rs) - {[]}"
proof (induction rs rule: keep_first.induct)
  case 1
  show ?case by simp
next
  case (2 r rs)
  show ?case
  proof (cases "link_of r = []")
    case True
    with 2 show ?thesis by auto
  next
    case False
    with 2 have "set (map link_of (keep_first (filter (\<lambda>r'. link_of r' \<noteq> link_of r) rs))) =
        set (map link_of (filter (\<lambda>r'. link_of r' \<noteq> link_of r) rs)) - {[]}" by simp
    with False show ?thesis by auto
  qed
qed





lemma gathered_cases:
  "gathered env claim = [] \<or> (\<exists>organic. gathered env claim = map make_item (keep_first organic))"
  by (auto simp: gathered_def collect_evidence_keep_first split: search_outcome.splits)


lemma gathered_links: "e \<in> set (gathered env claim) \<Longrightarrow> link e \<noteq> []"
  using gathered_cases [of env claim] keep_first_links
  by (fastforce simp: link_make_item)

lemma keep_first_stub: "keep_first organic_stub = [organic_stub ! 0, organic_stub ! 3]"
  by (simp add: organic_stub_def link_of_def get_or_def)


section \<open>Calls recorded along the computing path\<close>

lemma final_result_events:
  "snd (final_result env claim s) = add_events (pipeline_events env claim) s"
  by (simp add: final_result_state pipeline_events_def)

lemma after_lookup_events:
  "after_lookup env claim context s = add_events (lookup_events env claim context) s"
  by (simp add: after_lookup_def lookup_events_def log_event_add_events) (simp add: add_events_def)

lemma events_since_add_events [simp]: "events_since s (add_events evs s) = evs"
  by (simp add: events_since_def add_events_def)

lemma trace_add_events [simp]: "trace (add_events evs s) = trace s @ evs"
  by (simp add: add_events_def)

lemma store_add_events [simp]: "store (add_events evs s) = store s"
  by (simp add: add_events_def)

lemma clock_add_events [simp]: "clock (add_events evs s) = clock s"
  by (simp add: add_events_def)

lemma trace_cache_write:
  "trace (cache_write env claim context res s) = trace s @ write_events env claim context"
  by (simp add: cache_write_def write_events_def log_event_def Let_def)

lemma clock_cache_write [simp]: "clock (cache_write env claim context res s) = clock s"
  by (simp add: cache_write_def log_event_def Let_def)

lemma store_cache_write:
  "store (cache_write env claim context res s) =
     (if REDIS_AVAILABLE env
      then (store s)(cache_key env claim context \<mapsto> (json_dumps res, clock s + 86400))
      else store s)"
  by (simp add: cache_write_def log_event_def Let_def)

lemma verify_claim_miss_result:
  "cache_miss env claim context s \<Longrightarrow> write_ok env \<Longrightarrow>
   fst (verify_claim env claim context s) = fst (final_result env claim s)"
  using final_result_same_value [of env claim "after_lookup env claim context s" s]
  by (simp add: verify_claim_miss)

lemma verify_claim_miss_events:
  "cache_miss env claim context s \<Longrightarrow> write_ok env \<Longrightarrow>
   events_since s (snd (verify_claim env claim context s)) =
     lookup_events env claim context @ pipeline_events env claim @ write_events env claim context"
  by (simp add: verify_claim_miss final_result_events after_lookup_events events_since_def
        trace_cache_write)

lemma verify_claim_miss_store:
  "cache_miss env claim context s \<Longrightarrow> write_ok env \<Longrightarrow> REDIS_AVAILABLE env \<Longrightarrow>
   store (snd (verify_claim env claim context s)) =
     (store s)(cache_key env claim context \<mapsto>
        (json_dumps (fst (verify_claim env claim context s)), clock s + 86400))"
  by (simp add: verify_claim_miss final_result_events after_lookup_events store_cache_write)

lemma verify_claim_miss_clock:
  "cache_miss env claim context s \<Longrightarrow> write_ok env \<Longrightarrow>
   clock (snd (verify_claim env claim context s)) = clock s"
  by (simp add: verify_claim_miss final_result_events after_lookup_events)

lemma count_pipeline_events:
  "count_list (pipeline_events env claim) (Invoked a) = 1"
  by (cases a) (simp_all add: pipeline_events_def search_events_def primary_events_def
       secondary_events_def)

lemma final_result_gpt:
  "dict_get (fst (final_result env claim s)) ''gpt_score'' =
     Some (fst (secondary_outcome env claim (explanation (primary_outcome env claim (gathered env claim))))) \<and>
   dict_get (fst (final_result env claim s)) ''gpt_explanation'' =
     Some (snd (secondary_outcome env claim (explanation (primary_outcome env claim (gathered env claim)))))"
  by (simp add: final_result_value dict_get_def Let_def)

lemma final_result_evidence:
  "dict_get (fst (final_result env claim s)) ''evidence'' =
     Some (PList (map evidence_dict (gathered env claim))) \<and>
   dict_get (fst (final_result env claim s)) ''sources'' =
     Some (PList (map (\<lambda>e. PStr (link e)) (gathered env claim)))"
proof -
  have "filter (\<lambda>e. link e \<noteq> []) (gathered env claim) = gathered env claim"
    using gathered_links [of _ env claim] by (simp add: filter_id_conv)
  then show ?thesis
    by (simp add: final_result_value dict_get_def Let_def)
qed

lemma final_result_explanation:
  "dict_get (fst (final_result env claim s)) ''explanation'' =
     Some (PStr (explanation (primary_outcome env claim (gathered env claim))))"
  by (simp add: final_result_value dict_get_def Let_def)

lemma secondary_outcome_no_key:
  "\<not> configured (OPENAI_API_KEY env) \<Longrightarrow>
   secondary_outcome env claim expl =
     (PNone, PStr (''Error in GPT secondary check: '' @ float_none_error))"
  by (simp add: secondary_outcome_def gpt_reply_def)

lemma gathered_secondary_update [simp]:
  "gathered (env\<lparr>OPENAI_API_KEY := k, chat_create := c\<rparr>) claim = gathered env claim"
  by (simp add: gathered_def)

lemma primary_outcome_secondary_update [simp]:
  "primary_outcome (env\<lparr>OPENAI_API_KEY := k, chat_create := c\<rparr>) claim evidence =
     primary_outcome env claim evidence"
  by (simp add: primary_outcome_def judged_def split: sum.splits)

lemma cache_miss_secondary_update [simp]:
  "cache_miss (env\<lparr>OPENAI_API_KEY := k, chat_create := c\<rparr>) claim context s =
     cache_miss env claim context s"
  by (simp add: cache_miss_def cache_key_def)

lemma write_ok_secondary_update [simp]:
  "write_ok (env\<lparr>OPENAI_API_KEY := k, chat_create := c\<rparr>) = write_ok env"
  by (simp add: write_ok_def)

lemma test_miss: "cache_miss test_env test_claim None test_state"
  using test_claim_long
  by (simp add: cache_miss_def test_env_def live_entry_def test_state_def)

lemma test_write_ok: "write_ok test_env"
  by (simp add: write_ok_def test_env_def)

lemma gathered_test: "gathered (test_env\<lparr>gemini_model := False\<rparr>) test_claim =
    map make_item [organic_stub ! 0, organic_stub ! 3]"
  by (simp add: gathered_def test_env_def configured_def collect_evidence_keep_first keep_first_stub)


section \<open>Calls that follow one another\<close>

lemma json_loads_dumps [simp]: "json_loads (json_dumps r) = r"
  by (simp add: json_dumps_def)

lemma calls_add_events: "calls a (add_events evs s) = calls a s + count_list evs (Invoked a)"
  by (simp add: calls_def)

lemma calls_log_cache_get [simp]: "calls a (log_event (CacheGet k) s) = calls a s"
  by (simp add: calls_def log_event_def)

lemma calls_later [simp]: "calls a (later d s) = calls a s"
  by (simp add: calls_def later_def)

lemma verify_claim_miss_trace:
  "cache_miss env claim context s \<Longrightarrow> write_ok env \<Longrightarrow>
   trace (snd (verify_claim env claim context s)) =
     trace s @ lookup_events env claim context @ pipeline_events env claim @
       write_events env claim context"
  by (simp add: verify_claim_miss final_result_events after_lookup_events trace_cache_write)

lemma verify_claim_miss_calls:
  "cache_miss env claim context s \<Longrightarrow> write_ok env \<Longrightarrow>
   calls a (snd (verify_claim env claim context s)) = calls a s + 1"
  by (simp add: calls_def verify_claim_miss_trace count_pipeline_events
        lookup_events_def write_events_def)

lemma hit_after_miss:
  assumes miss: "cache_miss env claim context s" and redis: "REDIS_AVAILABLE env"
    and wr: "write_ok env"
    and redis': "REDIS_AVAILABLE env'" and get': "redis_get_error env' = None"
    and long': "\<not> too_short claim'"
    and key: "cache_key env' claim' context' = cache_key env claim context"
    and d: "d < 86400"
  shows "verify_claim env' claim' context' (later d (snd (verify_claim env claim context s))) =
           (fst (verify_claim env claim context s),
            log_event (CacheGet (cache_key env claim context))
              (later d (snd (verify_claim env claim context s))))"
proof -
  let ?s1 = "snd (verify_claim env claim context s)"
  let ?r1 = "fst (verify_claim env claim context s)"
  have st: "store ?s1 (cache_key env claim context) = Some (json_dumps ?r1, clock s + 86400)"
    using miss wr redis by (simp add: verify_claim_miss_store)
  have cl: "clock ?s1 = clock s"
    using miss wr by (rule verify_claim_miss_clock)
  have "live_entry (later d ?s1) (cache_key env' claim' context') = Some (json_dumps ?r1)"
    using st cl d by (simp add: live_entry_def later_def key)
  from verify_claim_hit [OF long' redis' get' this] show ?thesis
    by (simp add: key)
qed

lemma compute_and_cache_trace:
  "\<exists>evs. trace (snd (compute_and_cache env claim key s)) = trace s @ evs"
  using final_result_events [of env claim s]
  by (cases "final_result env claim s")
     (auto simp: compute_and_cache_def redis_setex_def log_event_def Let_def split: option.splits)

lemma verify_claim_first_event:
  assumes "REDIS_AVAILABLE env" and "\<not> too_short claim"
  shows "\<exists>evs. events_since s (snd (verify_claim env claim context s)) =
           CacheGet (cache_key env claim context) # evs"
proof -
  let ?k = "cache_key env claim context"
  have "snd (verify_claim env claim context s) = snd (verify_claim_try env claim context s)"
    by (cases "verify_claim_try env claim context s")
       (auto simp: verify_claim_def split: sum.splits)
  moreover have "\<exists>evs. trace (snd (verify_claim_try env claim context s)) = trace s @ CacheGet ?k # evs"
    using assms compute_and_cache_trace [of env claim ?k "log_event (CacheGet ?k) s"]
    by (auto simp: verify_claim_try_def redis_get_def Let_def log_event_def split: option.splits)
  ultimately show ?thesis
    by (auto simp: events_since_def)
qed

lemma cache_miss_no_redis:
  "\<not> REDIS_AVAILABLE env \<Longrightarrow> \<not> too_short claim \<Longrightarrow> cache_miss env claim context s"
  by (simp add: cache_miss_def)

lemma write_ok_no_redis: "\<not> REDIS_AVAILABLE env \<Longrightarrow> write_ok env"
  by (simp add: write_ok_def)

lemma served_from_cacheD:
  "served_from_cache env env' claim context s d \<Longrightarrow>
   calls a (snd (verify_claim env' claim context (later d (snd (verify_claim env claim context s))))) =
     calls a (snd (verify_claim env claim context s)) \<and>
   store (snd (verify_claim env claim context s)) (cache_key env claim context) =
     Some (json_dumps (fst (verify_claim env claim context s)),
           clock (snd (verify_claim env claim context s)) + 86400)"
  by (simp add: served_from_cache_def split_beta)


section \<open>The claims\<close>

text \<open>
  C1, as amended. Let the claim pass the validation, let the cache be available with no
  live entry under the fingerprint, and let its reads and writes not raise. Then the first
  call invokes the evidence gatherer and both judges once each and stores its result under
  the fingerprint with an expiry of 86400 seconds; a second call with the same claim and
  context less than 86400 seconds later, whatever the collaborators would answer then,
  returns that result unchanged and records a read of the cache and nothing else.
\<close>

theorem second_call_served_from_cache:
  assumes "cache_miss env claim context s" and "REDIS_AVAILABLE env" and "write_ok env"
    and "REDIS_AVAILABLE env'" and "redis_get_error env' = None"
    and "md5_hexdigest env' = md5_hexdigest env"
    and "d < 86400"
  shows "served_from_cache env env' claim context s d \<and>
         verify_claim env' claim context (later d (snd (verify_claim env claim context s))) =
           (fst (verify_claim env claim context s),
            log_event (CacheGet (cache_key env claim context))
              (later d (snd (verify_claim env claim context s))))"
proof -
  let ?s1 = "snd (verify_claim env claim context s)"
  let ?r1 = "fst (verify_claim env claim context s)"
  have long: "\<not> too_short claim"
    using assms(1) by (simp add: cache_miss_def)
  have key: "cache_key env' claim context = cache_key env claim context"
    using assms(6) by (simp add: cache_key_def)
  have hit: "verify_claim env' claim context (later d ?s1) =
      (?r1, log_event (CacheGet (cache_key env claim context)) (later d ?s1))"
    using assms(1,2,3,4,5) long key assms(7) by (rule hit_after_miss)
  have c1: "calls a ?s1 = calls a s + 1" for a
    using assms(1,3) by (rule verify_claim_miss_calls)
  have st: "store ?s1 (cache_key env claim context) = Some (json_dumps ?r1, clock ?s1 + 86400)"
    using assms(1,2,3) by (simp add: verify_claim_miss_store verify_claim_miss_clock)
  have "served_from_cache env env' claim context s d"
    using hit c1 st by (simp add: served_from_cache_def split_beta)
  with hit show ?thesis by simp
qed

theorem second_call_served_from_cache_witness:
  "cache_miss test_env test_claim None test_state \<and> (60::nat) < 86400 \<and>
   served_from_cache test_env test_env test_claim None test_state 60"
proof -
  have r: "REDIS_AVAILABLE test_env" and g: "redis_get_error test_env = None"
    by (simp_all add: test_env_def)
  have d: "(60::nat) < 86400" by simp
  from second_call_served_from_cache [OF test_miss r test_write_ok r g refl d] test_miss
  show ?thesis by simp
qed

text \<open>
  C1 as it is stated, for every claim and context, fails in two ways. With the cache
  switched off (\<open>REDIS_AVAILABLE\<close> false) the second call invokes the collaborators again: the
  primary judge has been invoked twice after it. With the cache on, a claim of two
  characters is answered by the validation and nothing is written to the cache.
\<close>

theorem served_from_cache_counterexample:
  "\<not> served_from_cache (test_env\<lparr>REDIS_AVAILABLE := False\<rparr>) (test_env\<lparr>REDIS_AVAILABLE := False\<rparr>)
       test_claim None test_state 60 \<and>
   calls PrimaryJudge (snd (verify_claim (test_env\<lparr>REDIS_AVAILABLE := False\<rparr>) test_claim None
      (later 60 (snd (verify_claim (test_env\<lparr>REDIS_AVAILABLE := False\<rparr>) test_claim None test_state))))) = 2 \<and>
   \<not> served_from_cache test_env test_env ''ab'' None test_state 60 \<and>
   store (snd (verify_claim test_env ''ab'' None test_state)) (cache_key test_env ''ab'' None) = None"
proof -
  let ?env = "test_env\<lparr>REDIS_AVAILABLE := False\<rparr>"
  let ?s1 = "snd (verify_claim ?env test_claim None test_state)"
  have off: "\<not> REDIS_AVAILABLE ?env" by simp
  have w: "write_ok ?env" using off by (rule write_ok_no_redis)
  have m: "cache_miss ?env test_claim None s" for s
    using off test_claim_long by (rule cache_miss_no_redis)
  have c1: "calls PrimaryJudge ?s1 = 1"
    using verify_claim_miss_calls [OF m w, of PrimaryJudge test_state]
    by (simp add: calls_def test_state_def)
  have c2: "calls PrimaryJudge (snd (verify_claim ?env test_claim None (later 60 ?s1))) = 2"
    using verify_claim_miss_calls [OF m w, of PrimaryJudge "later 60 ?s1"] c1 by simp
  have a: "\<not> served_from_cache ?env ?env test_claim None test_state 60"
    using served_from_cacheD [of ?env ?env test_claim None test_state 60 PrimaryJudge] c1 c2
    by auto
  have short: "too_short ''ab''"
    by (simp add: too_short_def strip_def py_isspace_def)
  have st: "store (snd (verify_claim test_env ''ab'' None test_state)) (cache_key test_env ''ab'' None) = None"
    using short by (simp add: verify_claim_rejected test_state_def)
  have b: "\<not> served_from_cache test_env test_env ''ab'' None test_state 60"
    using served_from_cacheD [of test_env test_env "''ab''" None test_state 60 PrimaryJudge] st
    by auto
  from a c2 b st show ?thesis by simp
qed

text \<open>
  C2. A claim whose trimmed text is empty or shorter than 3 characters gets the fixed
  result with score 50.0, verdict \<open>neutral\<close>, no evidence and no sources, and the state is
  left as it was: nothing is recorded, so neither the search provider nor a judge nor the
  cache has been called.
\<close>

theorem short_claim_rejected:
  assumes "claim = [] \<or> length (strip claim) < 3"
  shows "verify_claim env claim context s = (rejected_result claim, s) \<and>
         dict_get (rejected_result claim) ''score'' = Some (PFloat (Fin 50)) \<and>
         dict_get (rejected_result claim) ''verdict'' = Some (PStr ''neutral'') \<and>
         dict_get (rejected_result claim) ''evidence'' = Some (PList []) \<and>
         dict_get (rejected_result claim) ''sources'' = Some (PList []) \<and>
         events_since s (snd (verify_claim env claim context s)) = []"
proof -
  from assms have "too_short claim" by (simp add: too_short_def)
  then have "verify_claim env claim context s = (rejected_result claim, s)"
    by (rule verify_claim_rejected)
  then show ?thesis
    by (simp add: rejected_result_def dict_get_def events_since_def)
qed

theorem short_claim_rejected_witness:
  "length (strip '' ab '') < 3 \<and>
   verify_claim test_env '' ab '' None test_state = (rejected_result '' ab '', test_state) \<and>
   verify_claim test_env [] (Some ''ctx'') test_state = (rejected_result [], test_state)"
  using short_claim_rejected [of "'' ab ''" test_env None test_state]
    short_claim_rejected [of "[]" test_env "Some ''ctx''" test_state]
  by (simp add: strip_def py_isspace_def)

text \<open>
  C3. When the credential of the secondary judge is not configured, \<open>get_gpt_score\<close> makes
  no call and returns no score with the text \<open>OpenAI API key not set\<close>; the combined
  result then has \<open>gpt_score\<close> absent (\<open>None\<close>, not 50) and one fixed string as
  \<open>gpt_explanation\<close>, the one the orchestrator sets when the conversion of the missing
  score fails. Its score and verdict are the same whatever the credential and the
  behaviour of the secondary judge are. This is what \<open>verify_claim\<close> returns when the claim
  passes the validation, the cache has no entry and the write to the cache does not raise.
\<close>

theorem secondary_absent_without_key:
  assumes "\<not> configured (OPENAI_API_KEY env)"
  shows
    "get_gpt_score env claim expl s =
       (\<lparr>gpt_score = None, gpt_explanation = PStr ''OpenAI API key not set''\<rparr>,
        log_event (Invoked SecondaryJudge) s) \<and>
     dict_get (fst (final_result env claim s)) ''gpt_score'' = Some PNone \<and>
     dict_get (fst (final_result env claim s)) ''gpt_explanation'' =
       Some (PStr (''Error in GPT secondary check: '' @ float_none_error)) \<and>
     (\<forall>k c. dict_get (fst (final_result (env\<lparr>OPENAI_API_KEY := k, chat_create := c\<rparr>) claim s)) ''score'' =
            dict_get (fst (final_result env claim s)) ''score'' \<and>
            dict_get (fst (final_result (env\<lparr>OPENAI_API_KEY := k, chat_create := c\<rparr>) claim s)) ''verdict'' =
            dict_get (fst (final_result env claim s)) ''verdict'') \<and>
     (cache_miss env claim context s \<and> write_ok env \<longrightarrow>
        dict_get (fst (verify_claim env claim context s)) ''gpt_score'' = Some PNone \<and>
        dict_get (fst (verify_claim env claim context s)) ''gpt_explanation'' =
          Some (PStr (''Error in GPT secondary check: '' @ float_none_error)) \<and>
        (\<forall>k c. dict_get (fst (verify_claim (env\<lparr>OPENAI_API_KEY := k, chat_create := c\<rparr>) claim context s)) ''score'' =
               dict_get (fst (verify_claim env claim context s)) ''score'' \<and>
               dict_get (fst (verify_claim (env\<lparr>OPENAI_API_KEY := k, chat_create := c\<rparr>) claim context s)) ''verdict'' =
               dict_get (fst (verify_claim env claim context s)) ''verdict''))"
proof -
  have a: "get_gpt_score env claim expl s =
       (\<lparr>gpt_score = None, gpt_explanation = PStr ''OpenAI API key not set''\<rparr>,
        log_event (Invoked SecondaryJudge) s)"
    using assms by (simp add: get_gpt_score_def Let_def)
  have b: "dict_get (fst (final_result env claim s)) ''gpt_score'' = Some PNone"
    and c: "dict_get (fst (final_result env claim s)) ''gpt_explanation'' =
       Some (PStr (''Error in GPT secondary check: '' @ float_none_error))"
    using assms by (simp_all add: final_result_gpt secondary_outcome_no_key)
  have d: "dict_get (fst (final_result (env\<lparr>OPENAI_API_KEY := k, chat_create := c\<rparr>) claim s)) ''score'' =
            dict_get (fst (final_result env claim s)) ''score'' \<and>
           dict_get (fst (final_result (env\<lparr>OPENAI_API_KEY := k, chat_create := c\<rparr>) claim s)) ''verdict'' =
            dict_get (fst (final_result env claim s)) ''verdict''" for k c
    by (simp add: final_result_score final_result_verdict)
  show ?thesis
    using a b c d by (simp add: verify_claim_miss_result)
qed

theorem secondary_absent_without_key_witness:
  "\<not> configured (OPENAI_API_KEY (test_env\<lparr>OPENAI_API_KEY := None\<rparr>)) \<and>
   dict_get (fst (verify_claim (test_env\<lparr>OPENAI_API_KEY := None\<rparr>) test_claim None test_state))
     ''gpt_score'' = Some PNone \<and>
   dict_get (fst (verify_claim (test_env\<lparr>OPENAI_API_KEY := None\<rparr>) test_claim None test_state))
     ''gpt_explanation'' = Some (PStr (''Error in GPT secondary check: '' @ float_none_error))"
proof -
  let ?env = "test_env\<lparr>OPENAI_API_KEY := None\<rparr>"
  have k: "\<not> configured (OPENAI_API_KEY ?env)"
    by (simp add: configured_def)
  have m: "cache_miss ?env test_claim None test_state \<and> write_ok ?env"
    using test_miss test_write_ok by (simp add: cache_miss_def write_ok_def cache_key_def)
  from secondary_absent_without_key [OF k, of test_claim "[]" test_state None] m k
  show ?thesis by blast
qed

text \<open>
  C4. When the primary judge raises on the gathered evidence, the combined result has score
  50.0, verdict \<open>neutral\<close> and an explanation with the message of the failure; it still
  holds the gathered evidence, and its sources are the links of all the evidence items. The
  secondary judge is still invoked, and \<open>verify_claim\<close> returns and caches this result when
  the claim passes the validation, the cache has no entry and the write does not raise.
\<close>

theorem primary_failure_keeps_evidence:
  assumes "fst (verify_with_llm env claim (gathered env claim) s1) = Inl e"
  shows
    "dict_get (fst (final_result env claim s)) ''score'' = Some (PFloat (Fin 50)) \<and>
     dict_get (fst (final_result env claim s)) ''verdict'' = Some (PStr ''neutral'') \<and>
     dict_get (fst (final_result env claim s)) ''explanation'' =
       Some (PStr (''Error in AI analysis: '' @ e)) \<and>
     dict_get (fst (final_result env claim s)) ''evidence'' =
       Some (PList (map evidence_dict (fst (search_for_evidence env claim s)))) \<and>
     dict_get (fst (final_result env claim s)) ''sources'' =
       Some (PList (map (\<lambda>e. PStr (link e)) (fst (search_for_evidence env claim s)))) \<and>
     Invoked SecondaryJudge \<in> set (events_since s (snd (final_result env claim s))) \<and>
     (cache_miss env claim context s \<and> write_ok env \<longrightarrow>
        fst (verify_claim env claim context s) = fst (final_result env claim s) \<and>
        Invoked SecondaryJudge \<in> set (events_since s (snd (verify_claim env claim context s))) \<and>
        (REDIS_AVAILABLE env \<longrightarrow>
           live_entry (snd (verify_claim env claim context s)) (cache_key env claim context) =
             Some (json_dumps (fst (verify_claim env claim context s)))))"
proof -
  from assms have j: "judged env claim (gathered env claim) = Inl e"
    by (simp add: verify_with_llm_value)
  then have p: "primary_outcome env claim (gathered env claim) =
      \<lparr>score = Fin 50, verdict = ''neutral'', explanation = ''Error in AI analysis: '' @ e\<rparr>"
    by (simp add: primary_outcome_def)
  have sj: "Invoked SecondaryJudge \<in> set (pipeline_events env claim)"
    by (simp add: pipeline_events_def secondary_events_def)
  have live: "live_entry (snd (verify_claim env claim context s)) (cache_key env claim context) =
             Some (json_dumps (fst (verify_claim env claim context s)))"
    if "cache_miss env claim context s" "write_ok env" "REDIS_AVAILABLE env"
    using that by (simp add: live_entry_def verify_claim_miss_store verify_claim_miss_clock)
  show ?thesis
    using p sj live
    by (simp add: final_result_score final_result_verdict final_result_explanation
          final_result_evidence search_for_evidence_value final_result_events
          verify_claim_miss_result verify_claim_miss_events)
qed

theorem primary_failure_keeps_evidence_witness:
  "fst (verify_with_llm (test_env\<lparr>gemini_model := False\<rparr>) test_claim
         (gathered (test_env\<lparr>gemini_model := False\<rparr>) test_claim) test_state) =
     Inl ''Gemini model not available'' \<and>
   dict_get (fst (verify_claim (test_env\<lparr>gemini_model := False\<rparr>) test_claim None test_state)) ''sources'' =
     Some (PList [PStr ''https://nasa.gov/wall'', PStr ''https://example.org/a'']) \<and>
   dict_get (fst (verify_claim (test_env\<lparr>gemini_model := False\<rparr>) test_claim None test_state)) ''verdict'' =
     Some (PStr ''neutral'')"
proof -
  let ?env = "test_env\<lparr>gemini_model := False\<rparr>"
  have j: "fst (verify_with_llm ?env test_claim (gathered ?env test_claim) test_state) =
      Inl ''Gemini model not available''"
    by (simp add: verify_with_llm_def Let_def)
  have m: "cache_miss ?env test_claim None test_state \<and> write_ok ?env"
    using test_miss test_write_ok by (simp add: cache_miss_def write_ok_def cache_key_def)
  have l: "map (\<lambda>e. PStr (link e)) (fst (search_for_evidence ?env test_claim test_state)) =
      [PStr ''https://nasa.gov/wall'', PStr ''https://example.org/a'']"
    by (simp add: search_for_evidence_value gathered_test link_make_item)
       (simp add: organic_stub_def link_of_def get_or_def)
  from primary_failure_keeps_evidence [OF j, of test_state None] m j l
  show ?thesis by simp
qed





text \<open>
  C7. Every response of the primary judge parses to an outcome whose verdict is one of
  \<open>true\<close>, \<open>false\<close>, \<open>partial\<close> and \<open>neutral\<close>. A response without a \<open>VERDICT:\<close> line
  whose token, in lower case, is \<open>true\<close>, \<open>false\<close> or \<open>partial\<close> gets \<open>neutral\<close>; the
  token \<open>maybe\<close> is not such a token. Otherwise the last such line decides. The verdict
  of the combined result is one of the four as well.
\<close>

theorem primary_verdict_sanitised:
  "(\<exists>out. parse_response float response_text = Inr out \<and> verdict out \<in> verdicts) \<and>
   ((\<forall>l \<in> set (response_lines response_text). \<not> recognised l) \<longrightarrow>
      (\<exists>out. parse_response float response_text = Inr out \<and> verdict out = ''neutral'')) \<and>
   (\<forall>pre line post.
      response_lines response_text = pre @ line # post \<and> recognised line \<and>
      (\<forall>l \<in> set post. \<not> recognised l) \<longrightarrow>
      (\<exists>out. parse_response float response_text = Inr out \<and>
         verdict out = reported_verdict line)) \<and>
   reported_verdict ''VERDICT: maybe'' = ''maybe'' \<and> \<not> recognised ''VERDICT: maybe'' \<and>
   (\<exists>v. dict_get (fst (final_result env claim s)) ''verdict'' = Some (PStr v) \<and> v \<in> verdicts)"
proof (intro conjI allI impI)
  show "\<exists>out. parse_response float response_text = Inr out \<and> verdict out \<in> verdicts"
    using parse_response_in_range [of float response_text] by blast
next
  assume "\<forall>l \<in> set (response_lines response_text). \<not> recognised l"
  then show "\<exists>out. parse_response float response_text = Inr out \<and> verdict out = ''neutral''"
    by (rule parse_response_neutral)
next
  fix pre line post
  assume "response_lines response_text = pre @ line # post \<and> recognised line \<and>
      (\<forall>l \<in> set post. \<not> recognised l)"
  then show "\<exists>out. parse_response float response_text = Inr out \<and>
         verdict out = reported_verdict line"
    using parse_response_verdict [of response_text pre line post float] by blast
next
  show m: "reported_verdict ''VERDICT: maybe'' = ''maybe''"
    by code_simp
  show "\<not> recognised ''VERDICT: maybe''"
    by (simp add: recognised_def m)
next
  show "\<exists>v. dict_get (fst (final_result env claim s)) ''verdict'' = Some (PStr v) \<and> v \<in> verdicts"
    using primary_outcome_sound [of env claim "gathered env claim"]
    by (simp add: final_result_verdict)
qed

theorem primary_verdict_sanitised_witness:
  "(\<exists>out. parse_response float_stub (''SCORE: 150'' @ nl @ ''VERDICT: maybe'' @ nl @ ''EXPLANATION: none'')
        = Inr out \<and> verdict out = ''neutral'') \<and>
   (\<exists>out. parse_response float_stub (''VERDICT: Partial'' @ nl @ ''SCORE: -10'') = Inr out \<and>
        verdict out = ''partial'')"
proof -
  note t1 = primary_verdict_sanitised [of float_stub
      "''SCORE: 150'' @ nl @ ''VERDICT: maybe'' @ nl @ ''EXPLANATION: none''" test_env test_claim test_state]
  note t2 = primary_verdict_sanitised [of float_stub "''VERDICT: Partial'' @ nl @ ''SCORE: -10''"
      test_env test_claim test_state]
  from t1 have maybe: "\<not> recognised ''VERDICT: maybe''" by blast
  have "\<forall>l \<in> set (response_lines (''SCORE: 150'' @ nl @ ''VERDICT: maybe'' @ nl @ ''EXPLANATION: none'')).
          \<not> recognised l"
    unfolding response_stub_lines using maybe by (simp add: recognised_def startswith_def)
  with t1 have a: "\<exists>out. parse_response float_stub
      (''SCORE: 150'' @ nl @ ''VERDICT: maybe'' @ nl @ ''EXPLANATION: none'') = Inr out \<and>
      verdict out = ''neutral''" by blast
  have p: "recognised ''VERDICT: Partial''"
    by (simp add: recognised_def reported_verdict_Partial) (simp add: startswith_def)
  have q: "\<forall>l \<in> set [''SCORE: -10'']. \<not> recognised l"
    by (simp add: recognised_def startswith_def)
  have l: "response_lines (''VERDICT: Partial'' @ nl @ ''SCORE: -10'') =
      [] @ ''VERDICT: Partial'' # [''SCORE: -10'']"
    unfolding response_low_lines by simp
  from t2 l p q have "\<exists>out. parse_response float_stub (''VERDICT: Partial'' @ nl @ ''SCORE: -10'') = Inr out \<and>
      verdict out = reported_verdict ''VERDICT: Partial''" by blast
  with a show ?thesis by (simp add: reported_verdict_Partial)
qed



text \<open>
  C9. The fingerprint is computed from the claim followed by the context, with nothing
  between them: the key for claim \<open>ab\<close> with an empty context is the key for claim \<open>a\<close>
  with context \<open>b\<close>, and equal concatenations give equal keys. These two claims are
  answered by the validation before any key is computed; the claims \<open>abcd\<close> (empty context)
  and \<open>abc\<close> (context \<open>d\<close>) pass it, \<open>verify_claim\<close> reads the cache under the same key for
  both, and the second is served the result that was stored for the first.
\<close>

theorem cache_key_collision:
  "cache_key env ''ab'' (Some []) = cache_key env ''a'' (Some ''b'') \<and>
   cache_key env ''abcd'' (Some []) = cache_key env ''abc'' (Some ''d'') \<and>
   ''abcd'' \<noteq> ''abc'' \<and>
   (claim @ get_or context [] = claim' @ get_or context' [] \<longrightarrow>
      cache_key env claim context = cache_key env claim' context') \<and>
   (REDIS_AVAILABLE env \<longrightarrow>
      (\<exists>evs evs'.
         events_since s (snd (verify_claim env ''abcd'' (Some []) s)) =
           CacheGet (cache_key env ''abcd'' (Some [])) # evs \<and>
         events_since s' (snd (verify_claim env ''abc'' (Some ''d'') s')) =
           CacheGet (cache_key env ''abcd'' (Some [])) # evs')) \<and>
   (REDIS_AVAILABLE env \<and> redis_get_error env = None \<and> redis_setex_error env = None \<and>
    live_entry s (cache_key env ''abcd'' (Some [])) = None \<and> d < 86400 \<longrightarrow>
      fst (verify_claim env ''abc'' (Some ''d'')
             (later d (snd (verify_claim env ''abcd'' (Some []) s)))) =
        fst (verify_claim env ''abcd'' (Some []) s) \<and>
      dict_get (fst (verify_claim env ''abcd'' (Some []) s)) ''text'' = Some (PStr ''abcd''))"
proof -
  have l1: "\<not> too_short ''abcd''" and l2: "\<not> too_short ''abc''"
    by (simp_all add: too_short_def strip_def py_isspace_def)
  have k: "cache_key env ''abcd'' (Some []) = cache_key env ''abc'' (Some ''d'')"
    by (simp add: cache_key_def get_or_def)
  have a: "cache_key env ''ab'' (Some []) = cache_key env ''a'' (Some ''b'')"
    by (simp add: cache_key_def get_or_def)
  have g: "claim @ get_or context [] = claim' @ get_or context' [] \<longrightarrow>
      cache_key env claim context = cache_key env claim' context'"
    by (simp add: cache_key_def)
  have ev: "\<exists>evs evs'.
         events_since s (snd (verify_claim env ''abcd'' (Some []) s)) =
           CacheGet (cache_key env ''abcd'' (Some [])) # evs \<and>
         events_since s' (snd (verify_claim env ''abc'' (Some ''d'') s')) =
           CacheGet (cache_key env ''abcd'' (Some [])) # evs'"
    if "REDIS_AVAILABLE env"
    using verify_claim_first_event [OF that l1, of s "Some []"]
      verify_claim_first_event [OF that l2, of s' "Some ''d''"] k
    by auto
  have hit: "fst (verify_claim env ''abc'' (Some ''d'')
             (later d (snd (verify_claim env ''abcd'' (Some []) s)))) =
        fst (verify_claim env ''abcd'' (Some []) s) \<and>
      dict_get (fst (verify_claim env ''abcd'' (Some []) s)) ''text'' = Some (PStr ''abcd'')"
    if h: "REDIS_AVAILABLE env \<and> redis_get_error env = None \<and> redis_setex_error env = None \<and>
       live_entry s (cache_key env ''abcd'' (Some [])) = None \<and> d < 86400"
  proof -
    from h l1 have m: "cache_miss env ''abcd'' (Some []) s"
      by (simp add: cache_miss_def)
    from h have w: "write_ok env" by (simp add: write_ok_def)
    from h have r: "REDIS_AVAILABLE env" and ge: "redis_get_error env = None" and d: "d < 86400"
      by simp_all
    have "verify_claim env ''abc'' (Some ''d'') (later d (snd (verify_claim env ''abcd'' (Some []) s))) =
        (fst (verify_claim env ''abcd'' (Some []) s),
         log_event (CacheGet (cache_key env ''abcd'' (Some [])))
           (later d (snd (verify_claim env ''abcd'' (Some []) s))))"
      using m r w r ge l2 k [symmetric] d by (rule hit_after_miss)
    moreover have "dict_get (fst (verify_claim env ''abcd'' (Some []) s)) ''text'' = Some (PStr ''abcd'')"
      using m w by (simp add: verify_claim_miss_result final_result_value dict_get_def Let_def)
    ultimately show ?thesis by simp
  qed
  show ?thesis
    using a k g ev hit by simp
qed

theorem cache_key_collision_witness:
  "fst (verify_claim test_env ''abc'' (Some ''d'')
         (later 60 (snd (verify_claim test_env ''abcd'' (Some []) test_state)))) =
     fst (verify_claim test_env ''abcd'' (Some []) test_state) \<and>
   dict_get (fst (verify_claim test_env ''abcd'' (Some []) test_state)) ''text'' = Some (PStr ''abcd'')"
proof -
  have h: "REDIS_AVAILABLE test_env \<and> redis_get_error test_env = None \<and>
      redis_setex_error test_env = None \<and>
      live_entry test_state (cache_key test_env ''abcd'' (Some [])) = None \<and> (60::nat) < 86400"
    by (simp add: test_env_def live_entry_def test_state_def)
  note t = cache_key_collision [of test_env "[]" None "[]" None test_state test_state 60]
  from t have "REDIS_AVAILABLE test_env \<and> redis_get_error test_env = None \<and>
      redis_setex_error test_env = None \<and>
      live_entry test_state (cache_key test_env ''abcd'' (Some [])) = None \<and> (60::nat) < 86400 \<longrightarrow>
      fst (verify_claim test_env ''abc'' (Some ''d'')
             (later 60 (snd (verify_claim test_env ''abcd'' (Some []) test_state)))) =
        fst (verify_claim test_env ''abcd'' (Some []) test_state) \<and>
      dict_get (fst (verify_claim test_env ''abcd'' (Some []) test_state)) ''text'' = Some (PStr ''abcd'')"
    by (elim conjE) assumption
  with h show ?thesis by (elim impE) assumption
qed

text \<open>
  C10. The result of the validation and the result of the outermost handler have the seven
  keys \<open>text\<close>, \<open>score\<close>, \<open>verdict\<close>, \<open>explanation\<close>, \<open>sources\<close>, \<open>evidence\<close>, \<open>reviews\<close>
  and neither \<open>gpt_score\<close> nor \<open>gpt_explanation\<close>; the combined result of the computing
  path always has both.
\<close>

theorem result_shape_differs:
  "(too_short claim \<longrightarrow> dict_keys (fst (verify_claim env claim context s)) = result_keys) \<and>
   (\<forall>e s'. verify_claim_try env claim context s = (Inl e, s') \<longrightarrow>
      dict_keys (fst (verify_claim env claim context s)) = result_keys) \<and>
   set result_keys = {''text'', ''score'', ''verdict'', ''explanation'', ''sources'', ''evidence'', ''reviews''} \<and>
   ''gpt_score'' \<notin> set result_keys \<and> ''gpt_explanation'' \<notin> set result_keys \<and>
   dict_keys (fst (final_result env claim s)) = full_keys \<and>
   ''gpt_score'' \<in> set full_keys \<and> ''gpt_explanation'' \<in> set full_keys \<and>
   (cache_miss env claim context s \<and> write_ok env \<longrightarrow>
      dict_keys (fst (verify_claim env claim context s)) = full_keys)"
proof (intro conjI allI impI)
  assume "too_short claim"
  then show "dict_keys (fst (verify_claim env claim context s)) = result_keys"
    by (simp add: verify_claim_rejected rejected_result_keys)
next
  fix e s' assume "verify_claim_try env claim context s = (Inl e, s')"
  then show "dict_keys (fst (verify_claim env claim context s)) = result_keys"
    by (simp add: verify_claim_raised error_result_keys)
next
  show "set result_keys = {''text'', ''score'', ''verdict'', ''explanation'', ''sources'', ''evidence'', ''reviews''}"
    by (simp add: result_keys_def)
next
  show "''gpt_score'' \<notin> set result_keys" by (simp add: result_keys_def)
next
  show "''gpt_explanation'' \<notin> set result_keys" by (simp add: result_keys_def)
next
  show "dict_keys (fst (final_result env claim s)) = full_keys" by (rule final_result_keys)
next
  show "''gpt_score'' \<in> set full_keys" by (simp add: full_keys_def)
next
  show "''gpt_explanation'' \<in> set full_keys" by (simp add: full_keys_def)
next
  assume "cache_miss env claim context s \<and> write_ok env"
  then show "dict_keys (fst (verify_claim env claim context s)) = full_keys"
    by (simp add: verify_claim_miss_result final_result_keys)
qed

theorem result_shape_differs_witness:
  "dict_keys (fst (verify_claim test_env ''ab'' None test_state)) = result_keys \<and>
   dict_keys (fst (verify_claim (test_env\<lparr>redis_get_error := Some ''Connection refused''\<rparr>)
                     test_claim None test_state)) = result_keys \<and>
   dict_keys (fst (verify_claim test_env test_claim None test_state)) = full_keys"
proof -
  let ?env = "test_env\<lparr>redis_get_error := Some ''Connection refused''\<rparr>"
  have a: "too_short ''ab''"
    by (simp add: too_short_def strip_def py_isspace_def)
  have b: "verify_claim_try ?env test_claim None test_state =
     (Inl ''Connection refused'', log_event (CacheGet (cache_key ?env test_claim None)) test_state)"
    using test_claim_long by (intro verify_claim_try_get_error) (simp_all add: test_env_def)
  note t1 = result_shape_differs [of "''ab''" test_env None test_state]
  note t2 = result_shape_differs [of test_claim "?env" None test_state]
  note t3 = result_shape_differs [of test_claim test_env None test_state]
  have "dict_keys (fst (verify_claim test_env ''ab'' None test_state)) = result_keys"
    by (rule t1 [THEN conjunct1, rule_format, OF a])
  moreover have "dict_keys (fst (verify_claim ?env test_claim None test_state)) = result_keys"
    by (rule t2 [THEN conjunct2, THEN conjunct1, rule_format, OF b])
  moreover from t3 have "cache_miss test_env test_claim None test_state \<and> write_ok test_env \<longrightarrow>
      dict_keys (fst (verify_claim test_env test_claim None test_state)) = full_keys"
    by (elim conjE) assumption
  then have "dict_keys (fst (verify_claim test_env test_claim None test_state)) = full_keys"
    using test_miss test_write_ok by (elim impE) (rule conjI)
  ultimately show ?thesis by simp
qed


end
